theory Spec2Isabelle
  imports Complex_Main "HOL-Library.Word" "HOL-Library.Signed_Division"
begin

section \<open>Machine numbers\<close>

text \<open>
  The C++ type \<^verbatim>\<open>int\<close> is a 32-bit two's complement integer: \<open>+\<close>, \<open>-\<close> and \<open>*\<close>
  wrap around, \<open>sint\<close> reads the signed value. Division and remainder truncate
  towards zero, as \<^verbatim>\<open>/\<close> and \<^verbatim>\<open>%\<close> do in C++.

  \<^verbatim>\<open>float\<close> and \<^verbatim>\<open>double\<close> are idealised as \<open>real\<close>: rounding is not modelled, a
  literal denotes its decimal value and the conversion of an \<^verbatim>\<open>int\<close> is exact.
\<close>

type_synonym int32 = "32 word"

definition int_div :: "int32 \<Rightarrow> int32 \<Rightarrow> int32" where
  "int_div a b = word_of_int (sint a sdiv sint b)"

definition int_rem :: "int32 \<Rightarrow> int32 \<Rightarrow> int32" where
  "int_rem a b = word_of_int (sint a smod sint b)"

text \<open>\<^verbatim>\<open>std::abs(int)\<close>\<close>

definition int_abs :: "int32 \<Rightarrow> int32" where
  "int_abs v = (if sint v < 0 then - v else v)"

text \<open>\<^verbatim>\<open>static_cast<float>(int)\<close>\<close>

definition to_float :: "int32 \<Rightarrow> real" where
  "to_float v = real_of_int (sint v)"


section \<open>PathfindingUtils.hpp\<close>

datatype GridPoint = GridPoint (gp_x: int32) (gp_y: int32)

definition costs :: "real list" where
  "costs = [1, 1, 1, 1, 1.41421356, 1.41421356, 1.41421356, 1.41421356]"

definition HEURISTIC_EUCLIDEAN :: int32 where "HEURISTIC_EUCLIDEAN = 0"
definition HEURISTIC_DIAGONAL :: int32 where "HEURISTIC_DIAGONAL = 1"
definition HEURISTIC_MANHATTAN :: int32 where "HEURISTIC_MANHATTAN = 2"
definition HEURISTIC_MIN_COST :: int32 where "HEURISTIC_MIN_COST = 3"

definition euclidean_distance :: "int32 \<Rightarrow> int32 \<Rightarrow> int32 \<Rightarrow> int32 \<Rightarrow> real" where
  "euclidean_distance x1 y1 x2 y2 =
     (let dx_h = to_float (x1 - x2);
          dy_h = to_float (y1 - y2)
      in sqrt (dx_h * dx_h + dy_h * dy_h))"

definition diagonal_distance :: "int32 \<Rightarrow> int32 \<Rightarrow> int32 \<Rightarrow> int32 \<Rightarrow> real" where
  "diagonal_distance x1 y1 x2 y2 =
     (let dx_h = \<bar>to_float (x1 - x2)\<bar>;
          dy_h = \<bar>to_float (y1 - y2)\<bar>
      in costs ! 0 * (dx_h + dy_h) + (costs ! 4 - 2 * costs ! 0) * min dx_h dy_h)"

definition manhattan_distance :: "int32 \<Rightarrow> int32 \<Rightarrow> int32 \<Rightarrow> int32 \<Rightarrow> real" where
  "manhattan_distance x1 y1 x2 y2 = to_float (int_abs (x1 - x2) + int_abs (y1 - y2))"

text \<open>The \<^verbatim>\<open>switch\<close> of \<^verbatim>\<open>calculate_heuristic\<close>; its \<^verbatim>\<open>default\<close> shares the Euclidean case.\<close>

definition calculate_heuristic :: "int32 \<Rightarrow> int32 \<Rightarrow> int32 \<Rightarrow> int32 \<Rightarrow> int32 \<Rightarrow> real" where
  "calculate_heuristic x1 y1 x2 y2 heuristic_type =
     (if heuristic_type = HEURISTIC_DIAGONAL then diagonal_distance x1 y1 x2 y2
      else if heuristic_type = HEURISTIC_MANHATTAN then manhattan_distance x1 y1 x2 y2
      else if heuristic_type = HEURISTIC_MIN_COST then diagonal_distance x1 y1 x2 y2 * 0.8
      else euclidean_distance x1 y1 x2 y2)"

definition toIndex :: "int32 \<Rightarrow> int32 \<Rightarrow> int32 \<Rightarrow> int32" where
  "toIndex x y width = y * width + x"

text \<open>The two reference parameters \<^verbatim>\<open>x\<close> and \<^verbatim>\<open>y\<close> are returned as the pair \<open>(x, y)\<close>.\<close>

definition toCoords :: "int32 \<Rightarrow> int32 \<Rightarrow> int32 \<times> int32" where
  "toCoords index width =
     (if sint width \<le> 0 then (- 1, - 1)
      else (int_rem index width, int_div index width))"

text \<open>
  The Euclidean heuristic as the specification words it, over the integer coordinates
  and with the logical cell resolution as a factor.
\<close>

definition spec_euclidean :: "int \<Rightarrow> int \<Rightarrow> int \<Rightarrow> int \<Rightarrow> real \<Rightarrow> real" where
  "spec_euclidean x1 y1 x2 y2 log_cell_m =
     sqrt (real_of_int ((x1 - x2)\<^sup>2 + (y1 - y2)\<^sup>2)) * log_cell_m"

text \<open>
  What the window hands over as \<^verbatim>\<open>params.heuristicType\<close> in
  \<^verbatim>\<open>MainWindow::onCalculatePathClicked\<close>: the selected entry of the heuristic box when
  the box is enabled, \<open>-1\<close> otherwise.
\<close>

definition gui_heuristicType :: "bool \<Rightarrow> int32 \<Rightarrow> int32" where
  "gui_heuristicType heuristic_box_enabled current_data =
     (if heuristic_box_enabled then current_data else - 1)"


text \<open>The subtraction \<open>a - b\<close> of two \<^verbatim>\<open>int\<close>s does not leave the 32-bit range.\<close>

definition sub_fits :: "int32 \<Rightarrow> int32 \<Rightarrow> bool" where
  "sub_fits a b \<longleftrightarrow> - (2 ^ 31) \<le> sint a - sint b \<and> sint a - sint b < 2 ^ 31"


section \<open>The grid\<close>

text \<open>
  Modelled from the spec: the grid class \<^verbatim>\<open>mapgeo::Grid_V3\<close> of \<^verbatim>\<open>map/MapProcessor.hpp\<close>,
  which is not among the sources. A grid is \<open>(W, H, cells[W * H])\<close>, indexed row-major; a
  cell carries a cost multiplier or the sentinel \<open>IMPASSABLE\<close>;
  \<open>in_bounds (x, y) \<longleftrightarrow> 0 \<le> x < W \<and> 0 \<le> y < H\<close>.
\<close>

datatype cell_cost = IMPASSABLE | Multiplier real

record Grid_V3 =
  grid_width :: int32
  grid_height :: int32
  grid_cells :: "cell_cost list"

definition inBounds :: "Grid_V3 \<Rightarrow> int32 \<Rightarrow> int32 \<Rightarrow> bool" where
  "inBounds g x y \<longleftrightarrow>
     0 \<le> sint x \<and> sint x < sint (grid_width g) \<and> 0 \<le> sint y \<and> sint y < sint (grid_height g)"

definition point_inBounds :: "Grid_V3 \<Rightarrow> GridPoint \<Rightarrow> bool" where
  "point_inBounds g p = inBounds g (gp_x p) (gp_y p)"

definition on_impassable :: "Grid_V3 \<Rightarrow> GridPoint \<Rightarrow> bool" where
  "on_impassable g p \<longleftrightarrow>
     point_inBounds g p \<and>
     (let i = nat (sint (toIndex (gp_x p) (gp_y p) (grid_width g)))
      in i < length (grid_cells g) \<and> grid_cells g ! i = IMPASSABLE)"


section \<open>PathfindingLogic::processAndFindPath: the pathfinding loop\<close>

text \<open>
  The arguments every pathfinder receives besides the grid and the two end points of
  the segment: the elevation field, the two resolutions and the origin offsets.
\<close>

record elevation_args =
  elevation_values_final :: "real list"
  elevation_width_final :: int32
  elevation_height_final :: int32
  log_cell_resolution_meters :: real
  elevation_resolution_final :: real
  origin_offset_x :: real
  origin_offset_y :: real

text \<open>
  The five search functions of \<^verbatim>\<open>algoritms/*.hpp\<close> are not among the sources: they are
  parameters of the model. Each returns the index path of a segment, empty when no
  path was found.
\<close>

type_synonym pathfinder = "Grid_V3 \<Rightarrow> elevation_args \<Rightarrow> GridPoint \<Rightarrow> GridPoint \<Rightarrow> int32 list"

record pathfinders =
  findAStarPath_Tobler_Sampled :: "int32 \<Rightarrow> pathfinder"
  findDijkstraPath_Tobler_Sampled :: pathfinder
  findBFSPath_Tobler_Sampled :: pathfinder
  findThetaStarPath_Tobler_Sampled :: "int32 \<Rightarrow> pathfinder"
  findLazyThetaStarPath_Tobler_Sampled :: "int32 \<Rightarrow> pathfinder"

datatype backend_exception =
    Unsupported_algorithm string
  | Bad_optional_access
  | Runtime_error string

text \<open>The \<^verbatim>\<open>errorMsg\<close> of a segment, with the segment number \<open>i + 1\<close> and its end points.\<close>

datatype segment_error =
    Out_of_grid_bounds nat GridPoint GridPoint
  | Path_not_found nat GridPoint GridPoint

text \<open>
  The dispatch on \<^verbatim>\<open>params.algorithmName\<close>; an unknown name throws. The heuristic type is
  passed to the three informed searches only.
\<close>

definition call_pathfinder ::
  "pathfinders \<Rightarrow> string \<Rightarrow> int32 \<Rightarrow> Grid_V3 \<Rightarrow> elevation_args \<Rightarrow> GridPoint \<Rightarrow> GridPoint
     \<Rightarrow> backend_exception + int32 list" where
  "call_pathfinder pf algorithmName heuristicType grid ev segment_start_point segment_end_point =
     (if algorithmName = ''Optimized A*'' then
        Inr (findAStarPath_Tobler_Sampled pf heuristicType grid ev
               segment_start_point segment_end_point)
      else if algorithmName = ''Dijkstra'' then
        Inr (findDijkstraPath_Tobler_Sampled pf grid ev segment_start_point segment_end_point)
      else if algorithmName = ''BFS'' then
        Inr (findBFSPath_Tobler_Sampled pf grid ev segment_start_point segment_end_point)
      else if algorithmName = ''Theta*'' then
        Inr (findThetaStarPath_Tobler_Sampled pf heuristicType grid ev
               segment_start_point segment_end_point)
      else if algorithmName = ''Lazy Theta*'' then
        Inr (findLazyThetaStarPath_Tobler_Sampled pf heuristicType grid ev
               segment_start_point segment_end_point)
      else Inl (Unsupported_algorithm algorithmName))"

text \<open>
  The local variables of the loop. Two lists record its effects: \<open>searched\<close>, the
  segments handed to a pathfinder so far, in order, and \<open>mismatch_warnings\<close>, the
  numbers of the segments for which the warning \<^verbatim>\<open>start does not match previous end\<close>
  was printed.
\<close>

record loop_state =
  full_path_indices :: "int32 list"
  path_found_for_all_segments :: bool
  errorMsg :: "segment_error option"
  searched :: "(GridPoint \<times> GridPoint) list"
  mismatch_warnings :: "nat list"

definition initial_loop_state :: loop_state where
  "initial_loop_state =
     \<lparr>full_path_indices = [], path_found_for_all_segments = True, errorMsg = None,
      searched = [], mismatch_warnings = []\<rparr>"

text \<open>
  The block \<^verbatim>\<open>Concatenate paths\<close>: the new running result, and whether the warning was
  printed. \<^verbatim>\<open>back()\<close> and \<^verbatim>\<open>front()\<close> are only evaluated on non-empty vectors.
\<close>

definition concat_segment :: "int32 list \<Rightarrow> int32 list \<Rightarrow> int32 list \<times> bool" where
  "concat_segment full_path segment_path =
     (if full_path = [] then (segment_path, False)
      else if segment_path \<noteq> [] then
        (if length segment_path > 1 \<and> last full_path = hd segment_path
         then (full_path @ drop 1 segment_path, False)
         else if length segment_path = 1 \<and> last full_path = hd segment_path
         then (full_path, False)
         else (full_path @ segment_path,
               length segment_path > 1 \<and> last full_path \<noteq> hd segment_path))
      else (full_path, False))"

text \<open>The block \<^verbatim>\<open>Identical Point Check\<close>: what it does to the running result.\<close>

definition push_identical_point :: "int32 list \<Rightarrow> int32 \<Rightarrow> int32 list" where
  "push_identical_point full_path pointIndex =
     (if full_path = [] \<or> last full_path \<noteq> pointIndex then full_path @ [pointIndex]
      else full_path)"

text \<open>One pass through the loop body ends in \<^verbatim>\<open>continue\<close>, \<^verbatim>\<open>break\<close> or \<^verbatim>\<open>throw\<close>.\<close>

datatype step = Continue loop_state | Break loop_state | Throw backend_exception loop_state

definition process_segment ::
  "pathfinders \<Rightarrow> string \<Rightarrow> int32 \<Rightarrow> Grid_V3 \<Rightarrow> elevation_args \<Rightarrow> nat
     \<Rightarrow> GridPoint \<Rightarrow> GridPoint \<Rightarrow> loop_state \<Rightarrow> step" where
  "process_segment pf algorithmName heuristicType grid ev i segment_start_point segment_end_point st =
     (if \<not> inBounds grid (gp_x segment_start_point) (gp_y segment_start_point)
         \<or> \<not> inBounds grid (gp_x segment_end_point) (gp_y segment_end_point)
      then Break (st\<lparr>errorMsg := Some (Out_of_grid_bounds (i + 1)
                                        segment_start_point segment_end_point),
                     path_found_for_all_segments := False\<rparr>)
      else if segment_start_point = segment_end_point
      then (let pointIndex = toIndex (gp_x segment_start_point) (gp_y segment_start_point)
                               (grid_width grid)
            in Continue (st\<lparr>full_path_indices :=
                               push_identical_point (full_path_indices st) pointIndex\<rparr>))
      else (case call_pathfinder pf algorithmName heuristicType grid ev
                   segment_start_point segment_end_point of
              Inl e \<Rightarrow> Throw e st
            | Inr segment_path_indices \<Rightarrow>
                (let st1 = st\<lparr>searched := searched st
                                 @ [(segment_start_point, segment_end_point)]\<rparr>
                 in if segment_path_indices = []
                    then Break (st1\<lparr>errorMsg := Some (Path_not_found (i + 1)
                                                        segment_start_point segment_end_point),
                                     path_found_for_all_segments := False\<rparr>)
                    else (case concat_segment (full_path_indices st1) segment_path_indices of
                            (full_path, warned) \<Rightarrow>
                              Continue (st1\<lparr>full_path_indices := full_path,
                                  mismatch_warnings := mismatch_warnings st1
                                    @ (if warned then [i + 1] else [])\<rparr>)))))"

text \<open>
  The loop \<^verbatim>\<open>for (size_t i = 0; i < waypoints.size() - 1; ++i)\<close> over the consecutive
  pairs of waypoints; the list argument holds the waypoints from index \<open>i\<close> on.
\<close>

datatype loop_end = Loop_done loop_state | Loop_thrown backend_exception loop_state

fun segment_loop ::
  "pathfinders \<Rightarrow> string \<Rightarrow> int32 \<Rightarrow> Grid_V3 \<Rightarrow> elevation_args \<Rightarrow> nat
     \<Rightarrow> GridPoint list \<Rightarrow> loop_state \<Rightarrow> loop_end" where
  "segment_loop pf alg h grid ev i (a # b # rest) st =
     (case process_segment pf alg h grid ev i a b st of
        Continue st' \<Rightarrow> segment_loop pf alg h grid ev (i + 1) (b # rest) st'
      | Break st' \<Rightarrow> Loop_done st'
      | Throw e st' \<Rightarrow> Loop_thrown e st')"
| "segment_loop pf alg h grid ev i waypoints st = Loop_done st"

text \<open>The fields of \<^verbatim>\<open>BackendResult\<close> that the loop and the final step decide.\<close>

datatype result_message =
    No_message
  | Identical_points_only
  | Not_enough_waypoints
  | Segment_failed "segment_error option"
  | Backend_error backend_exception

record BackendResult =
  success :: bool
  errorMessage :: result_message
  fullPathIndices :: "int32 list"

text \<open>
  Step 5, \<^verbatim>\<open>Finalize Result\<close>, and the \<^verbatim>\<open>catch\<close> clauses: an exception leaves the fields
  of the result that were not yet assigned at their initial values.
\<close>

definition finalize_result :: "nat \<Rightarrow> loop_end \<Rightarrow> BackendResult" where
  "finalize_result waypoints_size e =
     (case e of
        Loop_thrown ex st \<Rightarrow>
          \<lparr>success = False, errorMessage = Backend_error ex, fullPathIndices = []\<rparr>
      | Loop_done st \<Rightarrow>
          (if path_found_for_all_segments st then
             (if full_path_indices st = [] \<and> waypoints_size > 1 then
                \<lparr>success = True, errorMessage = Identical_points_only, fullPathIndices = []\<rparr>
              else if full_path_indices st = [] \<and> waypoints_size \<le> 1 then
                \<lparr>success = True, errorMessage = Not_enough_waypoints, fullPathIndices = []\<rparr>
              else
                \<lparr>success = True, errorMessage = No_message,
                 fullPathIndices = full_path_indices st\<rparr>)
           else
             \<lparr>success = False, errorMessage = Segment_failed (errorMsg st),
              fullPathIndices = []\<rparr>))"

text \<open>The local variables as the loop leaves them.\<close>

definition end_state :: "loop_end \<Rightarrow> loop_state" where
  "end_state e = (case e of Loop_done st \<Rightarrow> st | Loop_thrown ex st \<Rightarrow> st)"

text \<open>
  Steps 2, 4 and 5 for the waypoints the extractor returned: fewer than two waypoints
  throw before the loop. The second component is the list of the segments that were
  handed to a pathfinder.
\<close>

definition find_full_path ::
  "pathfinders \<Rightarrow> string \<Rightarrow> int32 \<Rightarrow> Grid_V3 \<Rightarrow> elevation_args \<Rightarrow> GridPoint list option
     \<Rightarrow> BackendResult \<times> (GridPoint \<times> GridPoint) list" where
  "find_full_path pf alg h grid ev waypointsOpt =
     (case waypointsOpt of
        None \<Rightarrow> (\<lparr>success = False,
                   errorMessage = Backend_error (Runtime_error ''Failed to extract waypoints''),
                   fullPathIndices = []\<rparr>, [])
      | Some waypoints \<Rightarrow>
          if length waypoints < 2
          then (\<lparr>success = False,
                 errorMessage = Backend_error (Runtime_error ''Failed to extract waypoints''),
                 fullPathIndices = []\<rparr>, [])
          else (let e = segment_loop pf alg h grid ev 0 waypoints initial_loop_state
                in (finalize_result (length waypoints) e,
                    searched (end_state e))))"


text \<open>No call in the list came back with an empty path.\<close>

definition all_found ::
  "pathfinders \<Rightarrow> string \<Rightarrow> int32 \<Rightarrow> Grid_V3 \<Rightarrow> elevation_args
     \<Rightarrow> (GridPoint \<times> GridPoint) list \<Rightarrow> bool" where
  "all_found pf alg h grid ev calls \<longleftrightarrow>
     (\<forall>(c, d) \<in> set calls. call_pathfinder pf alg h grid ev c d \<noteq> Inr [])"

text \<open>
  An example run: a grid of one impassable cell, pathfinders that never find a path,
  and a flat elevation field.
\<close>

definition blocked_grid :: Grid_V3 where
  "blocked_grid = \<lparr>grid_width = 1, grid_height = 1, grid_cells = [IMPASSABLE]\<rparr>"

definition open_grid :: Grid_V3 where
  "open_grid = \<lparr>grid_width = 3, grid_height = 1,
                 grid_cells = [Multiplier 1, Multiplier 1, Multiplier 1]\<rparr>"

definition two_row_grid :: Grid_V3 where
  "two_row_grid = \<lparr>grid_width = 3, grid_height = 2,
                    grid_cells = [Multiplier 1, Multiplier 1, Multiplier 1,
                                  Multiplier 1, Multiplier 1, Multiplier 1]\<rparr>"

definition no_path_finders :: pathfinders where
  "no_path_finders =
     \<lparr>findAStarPath_Tobler_Sampled = (\<lambda>h g ev s e. []),
      findDijkstraPath_Tobler_Sampled = (\<lambda>g ev s e. []),
      findBFSPath_Tobler_Sampled = (\<lambda>g ev s e. []),
      findThetaStarPath_Tobler_Sampled = (\<lambda>h g ev s e. []),
      findLazyThetaStarPath_Tobler_Sampled = (\<lambda>h g ev s e. [])\<rparr>"

definition flat_elevation :: elevation_args where
  "flat_elevation =
     \<lparr>elevation_values_final = [100], elevation_width_final = 1, elevation_height_final = 1,
      log_cell_resolution_meters = 1, elevation_resolution_final = 1,
      origin_offset_x = 0, origin_offset_y = 0\<rparr>"


text \<open>Pathfinders that find the segment from \<open>(0, 0)\<close> to \<open>(1, 0)\<close> and no other.\<close>

definition one_segment_finders :: pathfinders where
  "one_segment_finders =
     no_path_finders\<lparr>findDijkstraPath_Tobler_Sampled :=
       (\<lambda>g ev s e. if s = GridPoint 0 0 \<and> e = GridPoint 1 0 then [0, 1] else [])\<rparr>"


section \<open>PathfindingLogic::processAndFindPath: the scan of the map file\<close>

text \<open>
  The scan result is declared in \<^verbatim>\<open>map/GeoRefScanner.hpp\<close>, which is not among the sources;
  the records hold the fields \<^verbatim>\<open>processAndFindPath\<close> reads. The scanner itself is not
  modelled: the value it returns for the map file is a parameter.
\<close>

record raw_bounds =
  bounds_initialized :: bool
  bounds_min_x :: real
  bounds_min_y :: real
  bounds_max_x :: real
  bounds_max_y :: real

record ScanResult =
  georeferencingFound :: bool
  refLatLon :: "(real \<times> real) option"
  rawBoundsUM :: "raw_bounds option"
  mapScale :: "real option"

text \<open>
  Step 1, the scan for georeferencing: whether an elevation fetch can be attempted,
  and the map scale. Missing bounds throw.
\<close>

definition scan_step :: "ScanResult \<Rightarrow> backend_exception + bool \<times> real" where
  "scan_step scanResult =
     (let bounds_ok = (case rawBoundsUM scanResult of
                         None \<Rightarrow> False | Some b \<Rightarrow> bounds_initialized b)
      in case (georeferencingFound scanResult \<and> refLatLon scanResult \<noteq> None \<and> bounds_ok,
               mapScale scanResult) of
           (True, Some scale) \<Rightarrow> Inr (True, scale)
         | _ \<Rightarrow>
            if \<not> bounds_ok
            then Inl (Runtime_error ''Could not determine coordinate bounds from map file.'')
            else Inr (False, 10000))"

text \<open>
  Two examples: a georeferenced map at scale 1:10000, and a map file in which the scan
  finds no coordinate bounds.
\<close>

definition georeferenced_scan :: ScanResult where
  "georeferenced_scan =
     \<lparr>georeferencingFound = True, refLatLon = Some (14, 50),
      rawBoundsUM = Some \<lparr>bounds_initialized = True, bounds_min_x = 0, bounds_min_y = 0,
                          bounds_max_x = 200, bounds_max_y = 200\<rparr>,
      mapScale = Some 10000\<rparr>"

definition boundless_scan :: ScanResult where
  "boundless_scan =
     \<lparr>georeferencingFound = False, refLatLon = None, rawBoundsUM = None, mapScale = None\<rparr>"


section \<open>Grid reuse between runs\<close>

text \<open>\<^verbatim>\<open>mapgeo::ObstacleConfigMap\<close>, a \<^verbatim>\<open>std::map<std::string, float>\<close>.\<close>

type_synonym ObstacleConfigMap = "string \<rightharpoonup> real"

text \<open>
  \<^verbatim>\<open>mapgeo::NormalizationResult\<close> is declared in \<^verbatim>\<open>map/MapProcessingCommon.h\<close>, which is not
  among the sources; these are the fields \<^verbatim>\<open>processAndFindPath\<close> reads.
\<close>

record NormalizationResult =
  norm_min_x :: real
  norm_min_y :: real
  resolution_x :: real
  resolution_y :: real
  norm_valid :: bool

text \<open>The fields of \<^verbatim>\<open>BackendInputParams\<close> that decide where the grid comes from.\<close>

record BackendInputParams =
  mapFilePath :: string
  desiredGridWidth :: int32
  desiredGridHeight :: int32
  obstacleCosts :: ObstacleConfigMap
  reuseGridIfPossible :: bool
  existingGrid :: "Grid_V3 option"
  existingNormInfo :: "NormalizationResult option"

text \<open>The fields of \<^verbatim>\<open>MainWindow::Impl\<close> that keep the last run.\<close>

record Impl =
  lastProcessedGrid :: "Grid_V3 option"
  lastNormalizationInfo :: "NormalizationResult option"
  currentMapFilePath :: string
  lastGridWidth :: int32
  lastGridHeight :: int32

text \<open>Step 3 of \<^verbatim>\<open>MainWindow::onCalculatePathClicked\<close>, \<^verbatim>\<open>Check for Grid Reuse\<close>.\<close>

definition check_grid_reuse :: "Impl \<Rightarrow> BackendInputParams \<Rightarrow> BackendInputParams" where
  "check_grid_reuse m_impl params =
     (if lastProcessedGrid m_impl \<noteq> None
         \<and> currentMapFilePath m_impl = mapFilePath params
         \<and> lastGridWidth m_impl = desiredGridWidth params
         \<and> lastGridHeight m_impl = desiredGridHeight params
      then params\<lparr>reuseGridIfPossible := True,
                  existingGrid := lastProcessedGrid m_impl,
                  existingNormInfo := lastNormalizationInfo m_impl\<rparr>
      else params\<lparr>reuseGridIfPossible := False\<rparr>)"

text \<open>
  \<^verbatim>\<open>Process Grid (reuse or generate)\<close> in \<^verbatim>\<open>processAndFindPath\<close>. The map processor is not
  among the sources: \<open>generate\<close> stands for loading the map and rasterizing it with the
  obstacle costs, which yields a grid with its normalization record or throws.
\<close>

datatype grid_origin = Reused | Generated

type_synonym map_processor =
  "string \<Rightarrow> int32 \<Rightarrow> int32 \<Rightarrow> ObstacleConfigMap
     \<Rightarrow> backend_exception + Grid_V3 \<times> NormalizationResult"

definition process_grid ::
  "map_processor \<Rightarrow> BackendInputParams
     \<Rightarrow> backend_exception + grid_origin \<times> Grid_V3 \<times> NormalizationResult" where
  "process_grid generate params =
     (case (reuseGridIfPossible params, existingGrid params, existingNormInfo params) of
        (True, Some grid, Some normInfo) \<Rightarrow> Inr (Reused, grid, normInfo)
      | _ \<Rightarrow>
         (case generate (mapFilePath params) (desiredGridWidth params)
                 (desiredGridHeight params) (obstacleCosts params) of
            Inl e \<Rightarrow> Inl e
          | Inr (grid, normInfo) \<Rightarrow> Inr (Generated, grid, normInfo)))"

text \<open>
  Step 1 of \<^verbatim>\<open>processAndFindPath\<close>, \<^verbatim>\<open>Map Scan & Processing\<close>: the scan comes first in
  every run, also in one that asks for reuse, and its exception ends the step before
  a grid is reused or generated.
\<close>

definition grid_stage ::
  "map_processor \<Rightarrow> ScanResult \<Rightarrow> BackendInputParams
     \<Rightarrow> backend_exception + grid_origin \<times> Grid_V3 \<times> NormalizationResult" where
  "grid_stage generate scanResult params =
     (case scan_step scanResult of
        Inl e \<Rightarrow> Inl e
      | Inr scanned \<Rightarrow> process_grid generate params)"

text \<open>
  The fields of \<^verbatim>\<open>BackendResult\<close> that echo the input and carry the grid. The echo is
  assigned at the start of the run; the grid and the normalization record are assigned
  once step 1 is through, before the later steps run, so they are returned even when a
  later step fails. An exception in step 1, from the scan or from the map processor,
  leaves the two optionals empty.
\<close>

record grid_result =
  usedMapFilePath :: string
  usedGridWidth :: int32
  usedGridHeight :: int32
  processedGrid :: "Grid_V3 option"
  normalizationInfo :: "NormalizationResult option"

definition grid_step :: "map_processor \<Rightarrow> ScanResult \<Rightarrow> BackendInputParams \<Rightarrow> grid_result" where
  "grid_step generate scanResult params =
     (let result = \<lparr>usedMapFilePath = mapFilePath params,
                     usedGridWidth = desiredGridWidth params,
                     usedGridHeight = desiredGridHeight params,
                     processedGrid = None, normalizationInfo = None\<rparr>
      in case grid_stage generate scanResult params of
           Inl e \<Rightarrow> result
         | Inr (origin, grid, normInfo) \<Rightarrow>
             result\<lparr>processedGrid := Some grid, normalizationInfo := Some normInfo\<rparr>)"

text \<open>\<^verbatim>\<open>MainWindow::onCalculationFinished\<close>, \<^verbatim>\<open>Store results\<close>.\<close>

definition onCalculationFinished :: "Impl \<Rightarrow> grid_result \<Rightarrow> Impl" where
  "onCalculationFinished m_impl result =
     m_impl\<lparr>currentMapFilePath := usedMapFilePath result,
            lastGridWidth := usedGridWidth result,
            lastGridHeight := usedGridHeight result,
            lastProcessedGrid := processedGrid result,
            lastNormalizationInfo := normalizationInfo result\<rparr>"

text \<open>
  An example: a map processor whose grid of one cell takes its cost from the symbol
  \<open>201\<close> of the obstacle costs, and two inputs that differ in that cost only.
\<close>

definition one_cell_processor :: map_processor where
  "one_cell_processor path w h obstacle_costs =
     Inr (\<lparr>grid_width = 1, grid_height = 1,
           grid_cells = [case obstacle_costs ''201'' of
                           None \<Rightarrow> Multiplier 1
                         | Some c \<Rightarrow> if c = - 1 then IMPASSABLE else Multiplier c]\<rparr>,
          \<lparr>norm_min_x = 0, norm_min_y = 0, resolution_x = 1, resolution_y = 1,
           norm_valid = True\<rparr>)"

definition first_input :: BackendInputParams where
  "first_input =
     \<lparr>mapFilePath = ''forest.omap'', desiredGridWidth = 1, desiredGridHeight = 1,
      obstacleCosts = [''201'' \<mapsto> 2], reuseGridIfPossible = False,
      existingGrid = None, existingNormInfo = None\<rparr>"

definition second_input :: BackendInputParams where
  "second_input = first_input\<lparr>obstacleCosts := [''201'' \<mapsto> - 1]\<rparr>"

definition fresh_window :: Impl where
  "fresh_window =
     \<lparr>lastProcessedGrid = None, lastNormalizationInfo = None, currentMapFilePath = [],
      lastGridWidth = 0, lastGridHeight = 0\<rparr>"


section \<open>PathfindingLogic::processAndFindPath: the elevation field\<close>

text \<open>
  The elevation data and the projected point are declared in headers that are not
  among the sources (\<^verbatim>\<open>map/ElevationFetchingCommon.hpp\<close>, \<^verbatim>\<open>map/ElevationFetcherPy.hpp\<close>);
  the records hold the fields \<^verbatim>\<open>processAndFindPath\<close> reads. The two calls into Python
  are not modelled: the values they return are parameters, and so are the
  default-constructed \<^verbatim>\<open>ElevationData\<close> and its member function \<^verbatim>\<open>hasData\<close>.
\<close>

record ElevationData =
  ed_success :: bool
  ed_values :: "real list"
  ed_width :: int32
  ed_height :: int32
  ed_resolution_meters :: real
  ed_origin_proj_x :: real
  ed_origin_proj_y :: real

record ProjectedPointResult =
  pp_success :: bool
  pp_x :: real
  pp_y :: real

text \<open>
  \<^verbatim>\<open>static_cast<size_t>(params.desiredGridWidth) * params.desiredGridHeight\<close>: both factors
  are converted to the 64-bit unsigned \<^verbatim>\<open>size_t\<close> and multiplied there.
\<close>

definition size_t_product :: "int32 \<Rightarrow> int32 \<Rightarrow> nat" where
  "size_t_product w h = unat ((scast w :: 64 word) * (scast h :: 64 word))"

text \<open>The block \<^verbatim>\<open>Setup dummy data if real failed or wasn't attempted\<close>.\<close>

definition dummy_elevation :: "BackendInputParams \<Rightarrow> real \<Rightarrow> elevation_args" where
  "dummy_elevation params log_cell =
     \<lparr>elevation_values_final = replicate (size_t_product (desiredGridWidth params)
                                           (desiredGridHeight params)) 100,
      elevation_width_final = desiredGridWidth params,
      elevation_height_final = desiredGridHeight params,
      log_cell_resolution_meters = log_cell,
      elevation_resolution_final = (if log_cell > 1 / 10 ^ 6 then log_cell else 1),
      origin_offset_x = 0,
      origin_offset_y = 0\<rparr>"

text \<open>
  Step 3, \<^verbatim>\<open>Elevation Fetching & Param Calculation\<close>: the arguments handed to the
  pathfinders and the flag \<^verbatim>\<open>usedDummyElevation\<close>. The local \<^verbatim>\<open>useRealElevation\<close> is
  initialised to \<^verbatim>\<open>true\<close>, set to \<^verbatim>\<open>true\<close> after a successful fetch, and set to \<^verbatim>\<open>false\<close>
  only when the conversion of the anchor fails. \<^verbatim>\<open>refLatLon.value()\<close> throws on an empty
  optional.
\<close>

definition prepare_elevation ::
  "ScanResult \<Rightarrow> bool \<Rightarrow> real \<Rightarrow> ElevationData \<Rightarrow> (ElevationData \<Rightarrow> bool) \<Rightarrow> ElevationData
     \<Rightarrow> ProjectedPointResult \<Rightarrow> BackendInputParams \<Rightarrow> NormalizationResult
     \<Rightarrow> backend_exception + elevation_args \<times> bool" where
  "prepare_elevation scanResult canFetchElevation mapScaleFromXml default_elevation hasData
       fetched anchorProj params finalNormInfo =
     (let useRealElevation0 = True;
          elevationResult = (if canFetchElevation then fetched else default_elevation);
          useRealElevation1 =
            (if canFetchElevation \<and> ed_success elevationResult \<and> hasData elevationResult
             then True else useRealElevation0);
          real_world_max_x = norm_min_x finalNormInfo
            + to_float (desiredGridWidth params) * resolution_x finalNormInfo;
          logical_res_internal_units_um =
            (real_world_max_x - norm_min_x finalNormInfo)
              / to_float (desiredGridWidth params);
          meters_per_internal_unit = mapScaleFromXml / 1000000;
          log_cell0 = logical_res_internal_units_um * meters_per_internal_unit;
          log_cell = (if log_cell0 \<le> 1 / 10 ^ 6 then 1 else log_cell0)
      in if useRealElevation1 then
           (case refLatLon scanResult of
              None \<Rightarrow> Inl Bad_optional_access
            | Some anchorLatLon \<Rightarrow>
                if pp_success anchorProj then
                  (let origin_offset_x_m = (norm_min_x finalNormInfo - 0)
                                             * meters_per_internal_unit;
                       origin_offset_y_m = (norm_min_y finalNormInfo - 0)
                                             * meters_per_internal_unit * (- 1);
                       logicalOriginProjX = pp_x anchorProj + origin_offset_x_m;
                       logicalOriginProjY = pp_y anchorProj + origin_offset_y_m
                   in Inr (\<lparr>elevation_values_final = ed_values elevationResult,
                            elevation_width_final = ed_width elevationResult,
                            elevation_height_final = ed_height elevationResult,
                            log_cell_resolution_meters = log_cell,
                            elevation_resolution_final = ed_resolution_meters elevationResult,
                            origin_offset_x = ed_origin_proj_x elevationResult
                                                - logicalOriginProjX,
                            origin_offset_y = ed_origin_proj_y elevationResult
                                                - logicalOriginProjY\<rparr>,
                           False))
                else Inr (dummy_elevation params log_cell, True))
         else Inr (dummy_elevation params log_cell, True))"

text \<open>
  The field the specification describes for a run without real elevation data: the
  value \<open>100\<close> in each of the \<open>W * H\<close> cells, the cell size \<open>log_cell_m\<close>, no offsets.
\<close>

definition uniform_field :: "elevation_args \<Rightarrow> int32 \<Rightarrow> int32 \<Rightarrow> bool" where
  "uniform_field ev w h \<longleftrightarrow>
     elevation_values_final ev = replicate (nat (sint w) * nat (sint h)) 100
     \<and> elevation_width_final ev = w \<and> elevation_height_final ev = h
     \<and> elevation_resolution_final ev = log_cell_resolution_meters ev
     \<and> origin_offset_x ev = 0 \<and> origin_offset_y ev = 0"

text \<open>
  An example: the elevation fetch for the georeferenced map fails, while the
  conversion of its anchor succeeds.
\<close>

definition failed_fetch :: ElevationData where
  "failed_fetch =
     \<lparr>ed_success = False, ed_values = [], ed_width = 0, ed_height = 0,
      ed_resolution_meters = 0, ed_origin_proj_x = 0, ed_origin_proj_y = 0\<rparr>"

definition values_present :: "ElevationData \<Rightarrow> bool" where
  "values_present e \<longleftrightarrow> ed_values e \<noteq> []"

definition anchor_converted :: ProjectedPointResult where
  "anchor_converted = \<lparr>pp_success = True, pp_x = 0, pp_y = 0\<rparr>"

definition anchor_failed :: ProjectedPointResult where
  "anchor_failed = \<lparr>pp_success = False, pp_x = 0, pp_y = 0\<rparr>"

definition two_by_two :: BackendInputParams where
  "two_by_two = first_input\<lparr>desiredGridWidth := 2, desiredGridHeight := 2\<rparr>"

definition unit_normalization :: NormalizationResult where
  "unit_normalization =
     \<lparr>norm_min_x = 0, norm_min_y = 0, resolution_x = 100, resolution_y = 100,
      norm_valid = True\<rparr>"


section \<open>MainWindow::parseObstacleCosts\<close>

text \<open>
  The member functions of \<^verbatim>\<open>std::string\<close> that the parser uses. A position is a \<open>nat\<close>,
  the value \<^verbatim>\<open>npos\<close> is \<open>None\<close>.
\<close>

fun first_not_of_from :: "string \<Rightarrow> string \<Rightarrow> nat \<Rightarrow> nat option" where
  "first_not_of_from [] chars i = None"
| "first_not_of_from (c # cs) chars i =
     (if c \<in> set chars then first_not_of_from cs chars (i + 1) else Some i)"

definition find_first_not_of :: "string \<Rightarrow> string \<Rightarrow> nat option" where
  "find_first_not_of s chars = first_not_of_from s chars 0"

fun last_not_of_from :: "string \<Rightarrow> string \<Rightarrow> nat \<Rightarrow> nat option" where
  "last_not_of_from [] chars i = None"
| "last_not_of_from (c # cs) chars i =
     (case last_not_of_from cs chars (i + 1) of
        Some j \<Rightarrow> Some j
      | None \<Rightarrow> if c \<in> set chars then None else Some i)"

definition find_last_not_of :: "string \<Rightarrow> string \<Rightarrow> nat option" where
  "find_last_not_of s chars = last_not_of_from s chars 0"

fun find_from :: "string \<Rightarrow> char \<Rightarrow> nat \<Rightarrow> nat option" where
  "find_from [] ch i = None"
| "find_from (c # cs) ch i = (if c = ch then Some i else find_from cs ch (i + 1))"

definition find_char :: "string \<Rightarrow> char \<Rightarrow> nat option" where
  "find_char s ch = find_from s ch 0"

text \<open>
  \<^verbatim>\<open>s.erase(index, count)\<close> removes \<open>count\<close> characters from \<open>index\<close> on, all of them when
  \<open>count\<close> is \<^verbatim>\<open>npos\<close>; \<^verbatim>\<open>s.substr(pos, count)\<close> likewise. The parser calls both with a
  position that is at most the length of the string.
\<close>

definition erase :: "string \<Rightarrow> nat \<Rightarrow> nat option \<Rightarrow> string" where
  "erase s index count =
     (case count of None \<Rightarrow> take index s | Some n \<Rightarrow> take index s @ drop (index + n) s)"

definition substr :: "string \<Rightarrow> nat \<Rightarrow> nat option \<Rightarrow> string" where
  "substr s pos count = (case count of None \<Rightarrow> drop pos s | Some n \<Rightarrow> take n (drop pos s))"

text \<open>\<^verbatim>\<open>p + 1\<close> for a position \<open>p\<close> of type \<^verbatim>\<open>size_t\<close>: \<^verbatim>\<open>npos + 1\<close> wraps around to \<open>0\<close>.\<close>

definition pos_plus_one :: "nat option \<Rightarrow> nat" where
  "pos_plus_one p = (case p of None \<Rightarrow> 0 | Some i \<Rightarrow> i + 1)"

text \<open>
  The two \<^verbatim>\<open>erase\<close> calls that trim a string:
  \<^verbatim>\<open>s.erase(0, s.find_first_not_of(chars)); s.erase(s.find_last_not_of(chars) + 1);\<close>
\<close>

definition trim :: "string \<Rightarrow> string \<Rightarrow> string" where
  "trim chars s =
     (let s1 = erase s 0 (find_first_not_of s chars)
      in erase s1 (pos_plus_one (find_last_not_of s1 chars)) None)"

text \<open>The characters of \<^verbatim>\<open>" \t\n\r"\<close> and of \<^verbatim>\<open>" \t"\<close>.\<close>

definition line_whitespace :: string where
  "line_whitespace = [CHR '' '', CHR 0x09, CHR 0x0A, CHR 0x0D]"

definition blanks :: string where
  "blanks = [CHR '' '', CHR 0x09]"

text \<open>
  The lines that the loop \<^verbatim>\<open>while (std::getline(ss, line))\<close> reads from the text: the
  pieces between the newline characters; a last piece without a newline counts when
  it is not empty. The second argument collects the current line in reverse.
\<close>

fun getlines_from :: "string \<Rightarrow> string \<Rightarrow> string list" where
  "getlines_from [] acc = (if acc = [] then [] else [rev acc])"
| "getlines_from (c # cs) acc =
     (if c = CHR 0x0A then rev acc # getlines_from cs [] else getlines_from cs (c # acc))"

definition getlines :: "string \<Rightarrow> string list" where
  "getlines text = getlines_from text []"

text \<open>
  \<^verbatim>\<open>std::stof\<close> belongs to the standard library and is a parameter of the model: it
  returns a float or throws one of two exceptions.
\<close>

datatype stof_result = Float real | Invalid_argument | Out_of_range

text \<open>
  The loop over the lines. The result is the returned flag and the contents of the
  reference parameter \<^verbatim>\<open>configMap\<close>, which keeps the entries stored before a failure.
\<close>

fun parse_lines ::
  "(string \<Rightarrow> stof_result) \<Rightarrow> string list \<Rightarrow> ObstacleConfigMap \<Rightarrow> bool \<times> ObstacleConfigMap" where
  "parse_lines stof [] configMap = (True, configMap)"
| "parse_lines stof (l # ls) configMap =
     (let line = trim line_whitespace l
      in if line = [] \<or> hd line = CHR ''#'' then parse_lines stof ls configMap
         else (case find_char line CHR '':'' of
                 None \<Rightarrow> (False, configMap)
               | Some colonPos \<Rightarrow>
                   (let codeStr = trim blanks (substr line 0 (Some colonPos));
                        valueStr = trim blanks (substr line (colonPos + 1) None)
                    in if codeStr = [] then (False, configMap)
                       else (case stof valueStr of
                               Float v \<Rightarrow> parse_lines stof ls (configMap(codeStr \<mapsto> v))
                             | Invalid_argument \<Rightarrow> (False, configMap)
                             | Out_of_range \<Rightarrow> (False, configMap)))))"

text \<open>
  The parser on the text of the edit box; \<^verbatim>\<open>configMap.clear()\<close> comes first. The guard
  against a window without its edit box is left out: the model starts from the text.
\<close>

definition parseObstacleCosts ::
  "(string \<Rightarrow> stof_result) \<Rightarrow> string \<Rightarrow> bool \<times> ObstacleConfigMap" where
  "parseObstacleCosts stof text = parse_lines stof (getlines text) Map.empty"

text \<open>
  The format as the specification words it. A line is ignored when it is blank or its
  first character that is not whitespace is \<open>#\<close>. Of any other line, the symbol code
  is what stands before the first colon and the value what stands after it, both
  without the whitespace around them. Such a line is malformed when it has no colon,
  an empty symbol code, or a value that is not a float.
\<close>

definition strip :: "string \<Rightarrow> string \<Rightarrow> string" where
  "strip chars s =
     rev (dropWhile (\<lambda>c. c \<in> set chars) (rev (dropWhile (\<lambda>c. c \<in> set chars) s)))"

definition ignored :: "string \<Rightarrow> bool" where
  "ignored l \<longleftrightarrow>
     (case dropWhile (\<lambda>c. c \<in> set line_whitespace) l of
        [] \<Rightarrow> True
      | c # cs \<Rightarrow> c = CHR ''#'')"

definition code_of :: "string \<Rightarrow> string" where
  "code_of l = strip blanks (takeWhile (\<lambda>c. c \<noteq> CHR '':'') (strip line_whitespace l))"

definition value_of :: "string \<Rightarrow> string" where
  "value_of l =
     strip blanks (drop 1 (dropWhile (\<lambda>c. c \<noteq> CHR '':'') (strip line_whitespace l)))"

definition is_float :: "(string \<Rightarrow> stof_result) \<Rightarrow> string \<Rightarrow> bool" where
  "is_float stof s = (case stof s of Float v \<Rightarrow> True | _ \<Rightarrow> False)"

definition float_of :: "(string \<Rightarrow> stof_result) \<Rightarrow> string \<Rightarrow> real" where
  "float_of stof s = (case stof s of Float v \<Rightarrow> v | _ \<Rightarrow> 0)"

definition malformed :: "(string \<Rightarrow> stof_result) \<Rightarrow> string \<Rightarrow> bool" where
  "malformed stof l \<longleftrightarrow>
     CHR '':'' \<notin> set l \<or> code_of l = [] \<or> \<not> is_float stof (value_of l)"

definition entries :: "(string \<Rightarrow> stof_result) \<Rightarrow> string list \<Rightarrow> (string \<times> real) list" where
  "entries stof ls =
     map (\<lambda>l. (code_of l, float_of stof (value_of l))) (filter (\<lambda>l. \<not> ignored l) ls)"

text \<open>A token: a string that neither begins nor ends with a whitespace character.\<close>

definition token :: "string \<Rightarrow> bool" where
  "token t \<longleftrightarrow> t = [] \<or> (hd t \<notin> set line_whitespace \<and> last t \<notin> set line_whitespace)"

text \<open>An example of \<^verbatim>\<open>std::stof\<close> that knows two numerals, and an example text.\<close>

definition example_stof :: "string \<Rightarrow> stof_result" where
  "example_stof s =
     (if s = ''-1.0'' then Float (- 1)
      else if s = ''2.5'' then Float 2.5
      else if s = ''1e99'' then Out_of_range
      else Invalid_argument)"

definition example_text :: string where
  "example_text = ''# costs'' @ [CHR 0x0A] @ [CHR 0x0A]
     @ ''  201 :'' @ [CHR 0x09] @ ''-1.0 '' @ [CHR 0x0D, CHR 0x0A]
     @ ''302:2.5''"


section \<open>Index arithmetic\<close>

lemma sdiv_nonneg: "0 \<le> (a::int) \<Longrightarrow> 0 < b \<Longrightarrow> a sdiv b = a div b"
  by (cases "a = 0") (simp_all add: signed_divide_int_def sgn_if)

lemma smod_nonneg: "0 \<le> (a::int) \<Longrightarrow> 0 < b \<Longrightarrow> a smod b = a mod b"
  by (cases "a = 0") (simp_all add: signed_modulo_int_def sgn_if)

lemma sint_int32_in_range:
  "- (2 ^ 31) \<le> k \<Longrightarrow> k < 2 ^ 31 \<Longrightarrow> sint (word_of_int k :: int32) = k"
  by (simp add: sint_sbintrunc' signed_take_bit_int_eq_self)

lemma sint_toIndex:
  assumes "- (2 ^ 31) \<le> sint y * sint w + sint x" and "sint y * sint w + sint x < 2 ^ 31"
  shows "sint (toIndex x y w) = sint y * sint w + sint x"
proof -
  have "toIndex x y w = word_of_int (sint y * sint w + sint x)"
    by (simp add: toIndex_def)
  then show ?thesis
    using assms by (simp only: sint_int32_in_range)
qed

lemma sint_minus_int32:
  assumes "- (2 ^ 31) \<le> sint a - sint b" and "sint a - sint b < 2 ^ 31"
  shows "sint (a - b :: int32) = sint a - sint b"
proof -
  have "a - b = word_of_int (sint a - sint b)"
    by simp
  then show ?thesis
    using assms by (simp only: sint_int32_in_range)
qed

text \<open>
  C9. For a width \<open>w > 0\<close> and a cell \<open>(x, y)\<close> with \<open>0 \<le> x < w\<close> and \<open>y \<ge> 0\<close>,
  \<open>toCoords (toIndex x y w) w\<close> is \<open>(x, y)\<close> again, provided the index \<open>y * w + x\<close> fits
  the 32-bit \<^verbatim>\<open>int\<close>, that is, stays below \<open>2 ^ 31\<close>.
\<close>

theorem toCoords_toIndex_roundtrip:
  assumes w: "0 < sint w" and x: "0 \<le> sint x" "sint x < sint w" and y: "0 \<le> sint y"
    and fit: "sint y * sint w + sint x < 2 ^ 31"
  shows "toCoords (toIndex x y w) w = (x, y)"
proof -
  let ?k = "sint y * sint w + sint x"
  have nonneg: "0 \<le> ?k"
    using w x y by simp
  have k: "sint (toIndex x y w) = ?k"
    using nonneg fit by (intro sint_toIndex) auto
  have d: "?k sdiv sint w = sint y"
    using w x nonneg by (simp add: sdiv_nonneg)
  have m: "?k smod sint w = sint x"
    using w x nonneg by (simp add: smod_nonneg)
  show ?thesis
    using w by (simp add: toCoords_def int_div_def int_rem_def k d m)
qed

theorem toCoords_toIndex_roundtrip_witness:
  "0 < sint (5 :: int32) \<and> 0 \<le> sint (3 :: int32) \<and> sint (3 :: int32) < sint (5 :: int32)
   \<and> 0 \<le> sint (2 :: int32) \<and> sint (2 :: int32) * sint (5 :: int32) + sint (3 :: int32) < 2 ^ 31
   \<and> toCoords (toIndex 3 2 5) 5 = (3, 2)"
  using toCoords_toIndex_roundtrip [of 5 3 2] by simp

text \<open>
  Without the bound the round trip fails: for the width \<open>65536\<close> and the cell
  \<open>(0, 32768)\<close> the product \<open>32768 * 65536 = 2 ^ 31\<close> wraps around to \<open>- (2 ^ 31)\<close>, and
  the row that comes back is \<open>- 32768\<close>.
\<close>

theorem toCoords_toIndex_overflow:
  "0 < sint (65536 :: int32) \<and> 0 \<le> sint (0 :: int32) \<and> sint (0 :: int32) < sint (65536 :: int32)
   \<and> 0 \<le> sint (32768 :: int32)
   \<and> toCoords (toIndex 0 32768 65536) 65536 = (0, - 32768)
   \<and> toCoords (toIndex 0 32768 65536) 65536 \<noteq> (0, 32768)"
  by (simp add: toCoords_def toIndex_def int_div_def int_rem_def
      signed_divide_int_def signed_modulo_int_def)

section \<open>Heuristics\<close>

lemma sqrt_25: "sqrt 25 = 5"
  using real_sqrt_abs [of 5] by simp

lemma to_float_sub:
  "sub_fits a b \<Longrightarrow> to_float (a - b) = real_of_int (sint a - sint b)"
  by (simp add: to_float_def sub_fits_def sint_minus_int32)

lemma euclidean_distance_grid:
  assumes "sub_fits x1 x2" and "sub_fits y1 y2"
  shows "euclidean_distance x1 y1 x2 y2 = spec_euclidean (sint x1) (sint y1) (sint x2) (sint y2) 1"
  using assms
  by (simp add: euclidean_distance_def spec_euclidean_def to_float_sub power2_eq_square Let_def)

lemma diagonal_distance_grid:
  assumes "sub_fits x1 x2" and "sub_fits y1 y2"
  shows "diagonal_distance x1 y1 x2 y2 =
     real_of_int (\<bar>sint x1 - sint x2\<bar> + \<bar>sint y1 - sint y2\<bar>)
       + (1.41421356 - 2) * real_of_int (min \<bar>sint x1 - sint x2\<bar> \<bar>sint y1 - sint y2\<bar>)"
proof -
  define a b where "a = sint x1 - sint x2" and "b = sint y1 - sint y2"
  have m: "min \<bar>real_of_int a\<bar> \<bar>real_of_int b\<bar> = real_of_int (min \<bar>a\<bar> \<bar>b\<bar>)"
    unfolding of_int_abs [symmetric] by (rule of_int_min [symmetric])
  have "diagonal_distance x1 y1 x2 y2
      = (\<bar>real_of_int a\<bar> + \<bar>real_of_int b\<bar>)
        + (1.41421356 - 2) * min \<bar>real_of_int a\<bar> \<bar>real_of_int b\<bar>"
    using assms
    by (simp only: diagonal_distance_def to_float_sub Let_def a_def b_def) (simp add: costs_def)
  then show ?thesis
    unfolding m by (simp add: a_def b_def)
qed

text \<open>
  C10. For a \<open>heuristic_type\<close> outside \<open>{HEURISTIC_DIAGONAL, HEURISTIC_MANHATTAN,
  HEURISTIC_MIN_COST}\<close>, \<open>calculate_heuristic\<close> returns a value, the Euclidean distance
  of the two cells: the square root of the sum of the squares of the two coordinate
  differences (which are the integer differences whenever the subtractions stay in
  range). The value \<open>-1\<close>, handed over when the heuristic box is disabled, is such a type.
\<close>

theorem calculate_heuristic_default_euclidean:
  assumes "heuristic_type \<notin> {HEURISTIC_DIAGONAL, HEURISTIC_MANHATTAN, HEURISTIC_MIN_COST}"
  shows "calculate_heuristic x1 y1 x2 y2 heuristic_type
           = sqrt ((to_float (x1 - x2))\<^sup>2 + (to_float (y1 - y2))\<^sup>2)
         \<and> (sub_fits x1 x2 \<and> sub_fits y1 y2 \<longrightarrow>
              calculate_heuristic x1 y1 x2 y2 heuristic_type
                = sqrt (real_of_int ((sint x1 - sint x2)\<^sup>2 + (sint y1 - sint y2)\<^sup>2)))"
proof -
  have e: "calculate_heuristic x1 y1 x2 y2 heuristic_type = euclidean_distance x1 y1 x2 y2"
    using assms by (simp add: calculate_heuristic_def)
  have "euclidean_distance x1 y1 x2 y2 = sqrt ((to_float (x1 - x2))\<^sup>2 + (to_float (y1 - y2))\<^sup>2)"
    by (simp add: euclidean_distance_def power2_eq_square Let_def)
  moreover have "euclidean_distance x1 y1 x2 y2
      = sqrt (real_of_int ((sint x1 - sint x2)\<^sup>2 + (sint y1 - sint y2)\<^sup>2))"
    if "sub_fits x1 x2" and "sub_fits y1 y2"
    using that by (simp add: euclidean_distance_grid spec_euclidean_def)
  ultimately show ?thesis
    using e by simp
qed

lemma gui_heuristicType_sentinel:
  "gui_heuristicType False h = - 1"
  "gui_heuristicType False h \<notin> {HEURISTIC_DIAGONAL, HEURISTIC_MANHATTAN, HEURISTIC_MIN_COST}"
  by (simp_all add: gui_heuristicType_def HEURISTIC_DIAGONAL_def HEURISTIC_MANHATTAN_def
      HEURISTIC_MIN_COST_def)

theorem calculate_heuristic_default_euclidean_witness:
  "gui_heuristicType False HEURISTIC_MIN_COST = - 1
   \<and> gui_heuristicType False HEURISTIC_MIN_COST
        \<notin> {HEURISTIC_DIAGONAL, HEURISTIC_MANHATTAN, HEURISTIC_MIN_COST}
   \<and> sub_fits 0 3 \<and> sub_fits 0 4
   \<and> calculate_heuristic 0 0 3 4 (gui_heuristicType False HEURISTIC_MIN_COST) = 5"
proof -
  have h: "gui_heuristicType False HEURISTIC_MIN_COST
             \<notin> {HEURISTIC_DIAGONAL, HEURISTIC_MANHATTAN, HEURISTIC_MIN_COST}"
    by (rule gui_heuristicType_sentinel)
  have f: "sub_fits 0 3" "sub_fits 0 4"
    by (simp_all add: sub_fits_def)
  show ?thesis
    using h f calculate_heuristic_default_euclidean [OF h, of 0 0 3 4]
    by (simp add: gui_heuristicType_sentinel(1) sqrt_25)
qed

text \<open>
  The heuristic has no resolution parameter. For the cells \<open>(0, 0)\<close> and \<open>(3, 4)\<close> the
  Euclidean selector returns \<open>5\<close>, whatever the logical cell resolution is; with a
  resolution of \<open>2\<close> metres the specified value is \<open>10\<close>.
\<close>

theorem calculate_heuristic_ignores_log_cell_m:
  "calculate_heuristic 0 0 3 4 HEURISTIC_EUCLIDEAN = 5
   \<and> spec_euclidean (sint (0 :: int32)) (sint (0 :: int32)) (sint (3 :: int32)) (sint (4 :: int32)) 2 = 10
   \<and> calculate_heuristic 0 0 3 4 HEURISTIC_EUCLIDEAN
       \<noteq> spec_euclidean (sint (0 :: int32)) (sint (0 :: int32)) (sint (3 :: int32)) (sint (4 :: int32)) 2"
  by (simp add: calculate_heuristic_def euclidean_distance_def to_float_def spec_euclidean_def
      HEURISTIC_EUCLIDEAN_def HEURISTIC_DIAGONAL_def HEURISTIC_MANHATTAN_def
      HEURISTIC_MIN_COST_def sqrt_25)

text \<open>
  C1. \<open>calculate_heuristic\<close> returns distances in grid cells: the Euclidean selector
  returns \<open>sqrt (dx\<^sup>2 + dy\<^sup>2)\<close>, the specified value for a resolution of \<open>1\<close>, and the
  Diagonal selector returns \<open>(|dx| + |dy|) + (c - 2) * min |dx| |dy|\<close> where \<open>c\<close> is the
  literal \<open>1.41421356\<close> of the table \<open>costs\<close>.
\<close>

theorem calculate_heuristic_grid_units:
  assumes "sub_fits x1 x2" and "sub_fits y1 y2"
  shows "calculate_heuristic x1 y1 x2 y2 HEURISTIC_EUCLIDEAN
           = spec_euclidean (sint x1) (sint y1) (sint x2) (sint y2) 1
         \<and> calculate_heuristic x1 y1 x2 y2 HEURISTIC_DIAGONAL
           = real_of_int (\<bar>sint x1 - sint x2\<bar> + \<bar>sint y1 - sint y2\<bar>)
             + (1.41421356 - 2) * real_of_int (min \<bar>sint x1 - sint x2\<bar> \<bar>sint y1 - sint y2\<bar>)"
  using assms
  by (simp add: calculate_heuristic_def euclidean_distance_grid diagonal_distance_grid
      HEURISTIC_EUCLIDEAN_def HEURISTIC_DIAGONAL_def HEURISTIC_MANHATTAN_def
      HEURISTIC_MIN_COST_def)

theorem calculate_heuristic_grid_units_witness:
  "sub_fits 0 3 \<and> sub_fits 0 4
   \<and> calculate_heuristic 0 0 3 4 HEURISTIC_EUCLIDEAN = 5
   \<and> calculate_heuristic 0 0 3 4 HEURISTIC_DIAGONAL = 7 + (1.41421356 - 2) * 3"
  using calculate_heuristic_grid_units [of 0 3 0 4]
  by (simp add: sub_fits_def spec_euclidean_def sqrt_25)

section \<open>The pathfinding loop\<close>

lemma process_segment_cases:
  obtains
    (oob) "\<not> point_inBounds g a \<or> \<not> point_inBounds g b"
      "process_segment pf alg h g ev i a b st =
         Break (st\<lparr>errorMsg := Some (Out_of_grid_bounds (i + 1) a b),
                    path_found_for_all_segments := False\<rparr>)"
  | (same) "point_inBounds g a" "point_inBounds g b" "a = b"
      "process_segment pf alg h g ev i a b st =
         Continue (st\<lparr>full_path_indices := push_identical_point (full_path_indices st)
                   (toIndex (gp_x a) (gp_y a) (grid_width g))\<rparr>)"
  | (thrown) e where "point_inBounds g a" "point_inBounds g b" "a \<noteq> b"
      "call_pathfinder pf alg h g ev a b = Inl e"
      "process_segment pf alg h g ev i a b st = Throw e st"
  | (empty) "point_inBounds g a" "point_inBounds g b" "a \<noteq> b"
      "call_pathfinder pf alg h g ev a b = Inr []"
      "process_segment pf alg h g ev i a b st =
         Break (st\<lparr>searched := searched st @ [(a, b)],
                    errorMsg := Some (Path_not_found (i + 1) a b),
                    path_found_for_all_segments := False\<rparr>)"
  | (found) seg where "point_inBounds g a" "point_inBounds g b" "a \<noteq> b"
      "call_pathfinder pf alg h g ev a b = Inr seg" "seg \<noteq> []"
      "process_segment pf alg h g ev i a b st =
         Continue (st\<lparr>searched := searched st @ [(a, b)],
            full_path_indices := fst (concat_segment (full_path_indices st) seg),
            mismatch_warnings := mismatch_warnings st
              @ (if snd (concat_segment (full_path_indices st) seg) then [i + 1] else [])\<rparr>)"
proof (cases "\<not> point_inBounds g a \<or> \<not> point_inBounds g b")
  case True
  then show ?thesis
    using oob by (auto simp: process_segment_def point_inBounds_def)
next
  case inb: False
  show ?thesis
  proof (cases "a = b")
    case True
    then show ?thesis
      using inb same by (simp add: process_segment_def point_inBounds_def)
  next
    case ne: False
    show ?thesis
    proof (cases "call_pathfinder pf alg h g ev a b")
      case (Inl e)
      then show ?thesis
        using inb ne thrown by (simp add: process_segment_def point_inBounds_def)
    next
      case (Inr seg)
      show ?thesis
      proof (cases "seg = []")
        case True
        then show ?thesis
          using inb ne Inr empty by (simp add: process_segment_def point_inBounds_def)
      next
        case False
        then show ?thesis
          using inb ne Inr found [of seg]
          by (simp add: process_segment_def point_inBounds_def split: prod.splits)
      qed
    qed
  qed
qed


lemma segment_loop_calls:
  assumes "all_found pf alg h g ev (searched st)"
  shows "all_found pf alg h g ev (searched (end_state (segment_loop pf alg h g ev i ws st)))
     \<or> (\<exists>st' k a b. segment_loop pf alg h g ev i ws st = Loop_done st'
           \<and> \<not> path_found_for_all_segments st'
           \<and> errorMsg st' = Some (Path_not_found k a b)
           \<and> call_pathfinder pf alg h g ev a b = Inr []
           \<and> (\<exists>pre. searched st' = pre @ [(a, b)] \<and> all_found pf alg h g ev pre))"
  using assms
proof (induction pf alg h g ev i ws st rule: segment_loop.induct)
  case (1 pf alg h g ev i a b rest st)
  show ?case
  proof (cases rule: process_segment_cases [of g a b pf alg h ev i st])
    case oob
    then show ?thesis
      using "1.prems" by (simp add: end_state_def)
  next
    case same
    then show ?thesis
      using "1.IH" [OF same(4)] "1.prems" by simp
  next
    case (thrown e)
    then show ?thesis
      using "1.prems" by (simp add: end_state_def)
  next
    case empty
    then show ?thesis
      using "1.prems" by simp
  next
    case (found seg)
    have "all_found pf alg h g ev (searched st @ [(a, b)])"
      using "1.prems" found(4,5) by (auto simp: all_found_def)
    then show ?thesis
      using "1.IH" [OF found(6)] found(6) by simp
  qed
qed (simp_all add: end_state_def)


lemma segment_loop_searched_inBounds:
  assumes "\<forall>(c, d) \<in> set (searched st). point_inBounds g c \<and> point_inBounds g d"
  shows "\<forall>(c, d) \<in> set (searched (end_state (segment_loop pf alg h g ev i ws st))).
           point_inBounds g c \<and> point_inBounds g d"
  using assms
proof (induction pf alg h g ev i ws st rule: segment_loop.induct)
  case (1 pf alg h g ev i a b rest st)
  show ?case
  proof (cases rule: process_segment_cases [of g a b pf alg h ev i st])
    case oob
    then show ?thesis
      using "1.prems" by (simp add: end_state_def)
  next
    case same
    then show ?thesis
      using "1.IH" [OF same(4)] "1.prems" by simp
  next
    case (thrown e)
    then show ?thesis
      using "1.prems" by (simp add: end_state_def)
  next
    case empty
    then show ?thesis
      using "1.prems" by (simp add: end_state_def)
  next
    case (found seg)
    then show ?thesis
      using "1.IH" [OF found(6)] "1.prems" by simp
  qed
qed (simp_all add: end_state_def)

lemma segment_loop_out_of_bounds:
  assumes "\<exists>w \<in> set ws. \<not> point_inBounds g w" and "2 \<le> length ws"
  shows "\<not> success (finalize_result n (segment_loop pf alg h g ev i ws st))
     \<and> fullPathIndices (finalize_result n (segment_loop pf alg h g ev i ws st)) = []"
  using assms
proof (induction pf alg h g ev i ws st rule: segment_loop.induct)
  case (1 pf alg h g ev i a b rest st)
  have rest: "(\<exists>w \<in> set (b # rest). \<not> point_inBounds g w) \<and> 2 \<le> length (b # rest)"
    if "point_inBounds g a" and "point_inBounds g b"
  proof -
    from "1.prems"(1) that obtain w where "w \<in> set rest" and "\<not> point_inBounds g w"
      by auto
    then show ?thesis
      by (cases rest) auto
  qed
  show ?case
  proof (cases rule: process_segment_cases [of g a b pf alg h ev i st])
    case oob
    then show ?thesis
      by (simp add: finalize_result_def)
  next
    case same
    then show ?thesis
      using "1.IH" [OF same(4)] rest by simp
  next
    case (thrown e)
    then show ?thesis
      by (simp add: finalize_result_def)
  next
    case empty
    then show ?thesis
      by (simp add: finalize_result_def)
  next
    case (found seg)
    then show ?thesis
      using "1.IH" [OF found(6)] rest by simp
  qed
qed simp_all

text \<open>
  C4. If a segment handed to a pathfinder comes back with an empty path, the run
  fails: \<open>success\<close> is false, the full path is empty whatever the earlier segments
  contributed, the message names that segment, and the failing segment is the last one
  that was searched: every search before it found a path and none follows it.
\<close>

theorem empty_segment_aborts_run:
  assumes run: "find_full_path pf alg h g ev waypointsOpt = (res, calls)"
    and call: "(a, b) \<in> set calls"
    and empty: "call_pathfinder pf alg h g ev a b = Inr []"
  shows "\<not> success res \<and> fullPathIndices res = []
     \<and> (\<exists>k. errorMessage res = Segment_failed (Some (Path_not_found k a b)))
     \<and> (\<exists>pre. calls = pre @ [(a, b)] \<and> all_found pf alg h g ev pre)"
proof -
  from run call obtain waypoints where wps: "waypointsOpt = Some waypoints"
    and len: "\<not> length waypoints < 2"
    by (auto simp: find_full_path_def split: option.splits if_splits)
  define e where "e = segment_loop pf alg h g ev 0 waypoints initial_loop_state"
  have res: "res = finalize_result (length waypoints) e"
    and calls: "calls = searched (end_state e)"
    using run wps len by (simp_all add: find_full_path_def e_def end_state_def Let_def)
  have "\<not> all_found pf alg h g ev calls"
    using call empty by (auto simp: all_found_def)
  moreover have "all_found pf alg h g ev (searched initial_loop_state)"
    by (simp add: all_found_def initial_loop_state_def)
  ultimately obtain st' k a' b' pre where fin: "e = Loop_done st'"
    and nf: "\<not> path_found_for_all_segments st'"
    and msg: "errorMsg st' = Some (Path_not_found k a' b')"
    and pre: "searched st' = pre @ [(a', b')]" "all_found pf alg h g ev pre"
    using segment_loop_calls [of pf alg h g ev initial_loop_state 0 waypoints]
    unfolding e_def [symmetric] calls by blast
  have "(a, b) \<notin> set pre"
    using pre(2) empty by (auto simp: all_found_def)
  then have ab: "(a', b') = (a, b)"
    using call calls fin pre(1) by (simp add: end_state_def)
  show ?thesis
    using res calls fin nf msg pre ab by (simp add: finalize_result_def end_state_def)
qed

text \<open>
  C2. If a waypoint lies outside the grid, the run fails: \<open>success\<close> is false and the
  full path is empty. The two end points of a segment are checked before that segment is
  searched, so no segment with an end point outside the grid reaches a pathfinder;
  segments before it have been searched by then. The loop makes no check for
  impassable cells.
\<close>

theorem out_of_bounds_waypoint_fails_run:
  assumes "w \<in> set waypoints" and "\<not> point_inBounds g w"
  shows "\<not> success (fst (find_full_path pf alg h g ev (Some waypoints)))
     \<and> fullPathIndices (fst (find_full_path pf alg h g ev (Some waypoints))) = []
     \<and> (\<forall>(c, d) \<in> set (snd (find_full_path pf alg h g ev (Some waypoints))).
           point_inBounds g c \<and> point_inBounds g d)"
proof (cases "length waypoints < 2")
  case True
  then show ?thesis
    by (simp add: find_full_path_def)
next
  case False
  then have len: "2 \<le> length waypoints"
    by simp
  have "\<forall>(c, d) \<in> set (searched initial_loop_state). point_inBounds g c \<and> point_inBounds g d"
    by (simp add: initial_loop_state_def)
  from segment_loop_searched_inBounds [OF this, of pf alg h ev 0 waypoints]
    segment_loop_out_of_bounds [OF _ len, of g "length waypoints" pf alg h ev 0 initial_loop_state]
    assms False
  show ?thesis
    by (auto simp: find_full_path_def end_state_def Let_def)
qed


lemmas example_defs =
  find_full_path_def process_segment_def call_pathfinder_def finalize_result_def
  end_state_def initial_loop_state_def push_identical_point_def concat_segment_def inBounds_def
  point_inBounds_def toIndex_def open_grid_def blocked_grid_def no_path_finders_def
  one_segment_finders_def

text \<open>
  A waypoint on an impassable cell is not refused when the next waypoint is the same
  cell: on the grid of one impassable cell, the waypoints \<open>(0, 0), (0, 0)\<close> give a
  successful run with the path \<open>[0]\<close>, and no pathfinder is called.
\<close>

theorem impassable_identical_waypoints_accepted:
  "on_impassable blocked_grid (GridPoint 0 0)
   \<and> find_full_path no_path_finders ''Dijkstra'' 0 blocked_grid flat_elevation
        (Some [GridPoint 0 0, GridPoint 0 0])
      = (\<lparr>success = True, errorMessage = No_message, fullPathIndices = [0]\<rparr>, [])"
  by (simp add: on_impassable_def example_defs)

theorem out_of_bounds_waypoint_fails_run_witness:
  "GridPoint 5 0 \<in> set [GridPoint 0 0, GridPoint 1 0, GridPoint 5 0]
   \<and> \<not> point_inBounds open_grid (GridPoint 5 0)
   \<and> find_full_path one_segment_finders ''Dijkstra'' 0 open_grid flat_elevation
        (Some [GridPoint 0 0, GridPoint 1 0, GridPoint 5 0])
      = (\<lparr>success = False,
          errorMessage = Segment_failed
            (Some (Out_of_grid_bounds 2 (GridPoint 1 0) (GridPoint 5 0))),
          fullPathIndices = []\<rparr>, [(GridPoint 0 0, GridPoint 1 0)])
   \<and> point_inBounds open_grid (GridPoint 0 0) \<and> point_inBounds open_grid (GridPoint 1 0)"
proof -
  have m: "GridPoint 5 0 \<in> set [GridPoint 0 0, GridPoint 1 0, GridPoint 5 0]"
    by simp
  have o: "\<not> point_inBounds open_grid (GridPoint 5 0)"
    by (simp add: example_defs)
  have r: "find_full_path one_segment_finders ''Dijkstra'' 0 open_grid flat_elevation
        (Some [GridPoint 0 0, GridPoint 1 0, GridPoint 5 0])
      = (\<lparr>success = False,
          errorMessage = Segment_failed
            (Some (Out_of_grid_bounds 2 (GridPoint 1 0) (GridPoint 5 0))),
          fullPathIndices = []\<rparr>, [(GridPoint 0 0, GridPoint 1 0)])"
    by (simp add: example_defs)
  show ?thesis
    using m o r out_of_bounds_waypoint_fails_run [OF m o, of one_segment_finders "''Dijkstra''" 0
        flat_elevation]
    by simp
qed

theorem empty_segment_aborts_run_witness:
  "find_full_path one_segment_finders ''Dijkstra'' 0 open_grid flat_elevation
        (Some [GridPoint 0 0, GridPoint 1 0, GridPoint 2 0])
      = (\<lparr>success = False,
          errorMessage = Segment_failed
            (Some (Path_not_found 2 (GridPoint 1 0) (GridPoint 2 0))),
          fullPathIndices = []\<rparr>,
         [(GridPoint 0 0, GridPoint 1 0), (GridPoint 1 0, GridPoint 2 0)])
   \<and> call_pathfinder one_segment_finders ''Dijkstra'' 0 open_grid flat_elevation
        (GridPoint 0 0) (GridPoint 1 0) = Inr [0, 1]
   \<and> call_pathfinder one_segment_finders ''Dijkstra'' 0 open_grid flat_elevation
        (GridPoint 1 0) (GridPoint 2 0) = Inr []
   \<and> all_found one_segment_finders ''Dijkstra'' 0 open_grid flat_elevation
        [(GridPoint 0 0, GridPoint 1 0)]"
proof -
  have r: "find_full_path one_segment_finders ''Dijkstra'' 0 open_grid flat_elevation
        (Some [GridPoint 0 0, GridPoint 1 0, GridPoint 2 0])
      = (\<lparr>success = False,
          errorMessage = Segment_failed
            (Some (Path_not_found 2 (GridPoint 1 0) (GridPoint 2 0))),
          fullPathIndices = []\<rparr>,
         [(GridPoint 0 0, GridPoint 1 0), (GridPoint 1 0, GridPoint 2 0)])"
    by (simp add: example_defs)
  have c: "(GridPoint 1 0, GridPoint 2 0)
      \<in> set [(GridPoint 0 0, GridPoint 1 0), (GridPoint 1 0, GridPoint 2 0)]"
    by simp
  have e: "call_pathfinder one_segment_finders ''Dijkstra'' 0 open_grid flat_elevation
        (GridPoint 1 0) (GridPoint 2 0) = Inr []"
    by (simp add: example_defs)
  have f: "call_pathfinder one_segment_finders ''Dijkstra'' 0 open_grid flat_elevation
        (GridPoint 0 0) (GridPoint 1 0) = Inr [0, 1]"
    by (simp add: example_defs)
  show ?thesis
    using r e f empty_segment_aborts_run [OF r c e]
    by simp
qed

text \<open>
  C5. Joining a non-empty segment to a non-empty running result: if the first index of
  the segment equals the last index of the result, that one index is dropped and the
  rest of the segment is appended; otherwise the whole segment is appended. The
  warning is printed exactly when the two indices differ and the segment has more than
  one index.
\<close>

theorem concat_segment_join:
  assumes "full_path \<noteq> []" and "segment_path \<noteq> []"
  shows "concat_segment full_path segment_path =
     (if last full_path = hd segment_path then full_path @ tl segment_path
      else full_path @ segment_path,
      length segment_path > 1 \<and> last full_path \<noteq> hd segment_path)"
proof (cases segment_path)
  case Nil
  with assms show ?thesis by simp
next
  case (Cons s rest)
  then show ?thesis
    using assms by (cases rest) (auto simp: concat_segment_def drop_Suc)
qed

theorem concat_segment_join_witness:
  "[0, 1] \<noteq> ([] :: int32 list) \<and> [1, 2] \<noteq> ([] :: int32 list)
   \<and> concat_segment [0, 1] [1, 2] = ([0, 1, 2], False)
   \<and> concat_segment [0, 1] [5, 2] = ([0, 1, 5, 2], True)"
  using concat_segment_join [of "[0, 1]" "[1, 2]"] concat_segment_join [of "[0, 1]" "[5, 2]"]
  by simp

text \<open>
  A segment of one index that differs from the last index of the running result is
  appended without the warning.
\<close>

theorem concat_segment_single_index_no_warning:
  "[3] \<noteq> ([] :: int32 list) \<and> [7] \<noteq> ([] :: int32 list) \<and> last [3 :: int32] \<noteq> hd [7]
   \<and> concat_segment [3] [7] = ([3, 7], False)"
  by (simp add: concat_segment_def)

lemma sint_toIndex_inBounds:
  assumes "inBounds g x y" and "sint y * sint (grid_width g) + sint x < 2 ^ 31"
  shows "sint (toIndex x y (grid_width g)) = sint y * sint (grid_width g) + sint x"
proof -
  have "0 \<le> sint x" and "0 \<le> sint y" and "0 \<le> sint (grid_width g)"
    using assms(1) by (simp_all add: inBounds_def)
  then have "0 \<le> sint y * sint (grid_width g) + sint x"
    by simp
  then have "- (2 ^ 31) \<le> sint y * sint (grid_width g) + sint x"
    by simp
  then show ?thesis
    using assms(2) by (rule sint_toIndex)
qed

text \<open>
  C6. A segment whose two end points are the same cell of the grid is not searched. It
  contributes the single index of that cell, \<open>y * W + x\<close> (computed in \<^verbatim>\<open>int\<close>; the
  integer \<open>y * W + x\<close> itself whenever that stays below \<open>2 ^ 31\<close>): the index is appended
  to the running result unless it already ends it, so the result is not empty, ends
  with that index and holds it once at the join. A run over two equal waypoints
  returns exactly that index.
\<close>

theorem identical_segment_single_index:
  assumes "point_inBounds g a"
  shows "process_segment pf alg h g ev i a a st =
           Continue (st\<lparr>full_path_indices := push_identical_point (full_path_indices st)
                   (toIndex (gp_x a) (gp_y a) (grid_width g))\<rparr>)
     \<and> push_identical_point full_path (toIndex (gp_x a) (gp_y a) (grid_width g)) =
         (if full_path \<noteq> [] \<and> last full_path = toIndex (gp_x a) (gp_y a) (grid_width g)
          then full_path else full_path @ [toIndex (gp_x a) (gp_y a) (grid_width g)])
     \<and> push_identical_point full_path (toIndex (gp_x a) (gp_y a) (grid_width g)) \<noteq> []
     \<and> find_full_path pf alg h g ev (Some [a, a]) =
         (\<lparr>success = True, errorMessage = No_message,
           fullPathIndices = [toIndex (gp_x a) (gp_y a) (grid_width g)]\<rparr>, [])
     \<and> toIndex (gp_x a) (gp_y a) (grid_width g) = gp_y a * grid_width g + gp_x a
     \<and> (sint (gp_y a) * sint (grid_width g) + sint (gp_x a) < 2 ^ 31 \<longrightarrow>
          sint (toIndex (gp_x a) (gp_y a) (grid_width g))
            = sint (gp_y a) * sint (grid_width g) + sint (gp_x a))"
proof -
  have idx: "sint (toIndex (gp_x a) (gp_y a) (grid_width g))
      = sint (gp_y a) * sint (grid_width g) + sint (gp_x a)"
    if "sint (gp_y a) * sint (grid_width g) + sint (gp_x a) < 2 ^ 31"
    using assms that unfolding point_inBounds_def by (rule sint_toIndex_inBounds)
  have word: "toIndex (gp_x a) (gp_y a) (grid_width g) = gp_y a * grid_width g + gp_x a"
    by (simp add: toIndex_def)
  have rest: "process_segment pf alg h g ev i a a st =
           Continue (st\<lparr>full_path_indices := push_identical_point (full_path_indices st)
                   (toIndex (gp_x a) (gp_y a) (grid_width g))\<rparr>)
     \<and> push_identical_point full_path (toIndex (gp_x a) (gp_y a) (grid_width g)) =
         (if full_path \<noteq> [] \<and> last full_path = toIndex (gp_x a) (gp_y a) (grid_width g)
          then full_path else full_path @ [toIndex (gp_x a) (gp_y a) (grid_width g)])
     \<and> push_identical_point full_path (toIndex (gp_x a) (gp_y a) (grid_width g)) \<noteq> []
     \<and> find_full_path pf alg h g ev (Some [a, a]) =
         (\<lparr>success = True, errorMessage = No_message,
           fullPathIndices = [toIndex (gp_x a) (gp_y a) (grid_width g)]\<rparr>, [])"
    using assms
    by (simp add: process_segment_def point_inBounds_def find_full_path_def
        finalize_result_def end_state_def initial_loop_state_def push_identical_point_def)
  show ?thesis
    using rest word idx by blast
qed

lemmas two_row_defs = example_defs two_row_grid_def

theorem identical_segment_single_index_witness:
  "point_inBounds two_row_grid (GridPoint 1 1)
   \<and> sint (gp_y (GridPoint 1 1)) * sint (grid_width two_row_grid) + sint (gp_x (GridPoint 1 1))
       < 2 ^ 31
   \<and> sint (toIndex 1 1 (grid_width two_row_grid)) = 4
   \<and> toIndex 1 1 (grid_width two_row_grid) = 4
   \<and> process_segment one_segment_finders ''Dijkstra'' 0 two_row_grid flat_elevation 1
        (GridPoint 1 1) (GridPoint 1 1) (initial_loop_state\<lparr>full_path_indices := [0, 4]\<rparr>)
      = Continue (initial_loop_state\<lparr>full_path_indices := [0, 4]\<rparr>)
   \<and> push_identical_point [0] (toIndex 1 1 (grid_width two_row_grid)) = [0, 4]
   \<and> find_full_path one_segment_finders ''Dijkstra'' 0 two_row_grid flat_elevation
        (Some [GridPoint 1 1, GridPoint 1 1])
      = (\<lparr>success = True, errorMessage = No_message, fullPathIndices = [4]\<rparr>, [])"
proof -
  have b: "point_inBounds two_row_grid (GridPoint 1 1)"
    by (simp add: two_row_defs)
  have f: "sint (gp_y (GridPoint 1 1)) * sint (grid_width two_row_grid)
      + sint (gp_x (GridPoint 1 1)) < 2 ^ 31"
    by (simp add: two_row_grid_def)
  have w: "grid_width two_row_grid = 3"
    by (simp add: two_row_grid_def)
  show ?thesis
    using b f identical_segment_single_index [OF b, of one_segment_finders "''Dijkstra''" 0
        flat_elevation 1 "initial_loop_state\<lparr>full_path_indices := [0, 4]\<rparr>" "[0]"]
    by (simp add: w push_identical_point_def)
qed


section \<open>Grid reuse\<close>

lemma grid_step_echo:
  "usedMapFilePath (grid_step generate scanResult params) = mapFilePath params"
  "usedGridWidth (grid_step generate scanResult params) = desiredGridWidth params"
  "usedGridHeight (grid_step generate scanResult params) = desiredGridHeight params"
  by (simp_all add: grid_step_def Let_def split: sum.splits prod.splits)

lemma grid_step_grid:
  "processedGrid (grid_step generate scanResult params) \<noteq> None
     \<longleftrightarrow> (\<exists>r. grid_stage generate scanResult params = Inr r)"
  "normalizationInfo (grid_step generate scanResult params) \<noteq> None
     \<longleftrightarrow> (\<exists>r. grid_stage generate scanResult params = Inr r)"
  by (auto simp add: grid_step_def Let_def split: sum.splits prod.splits)

lemma grid_stage_scan_thrown:
  "scan_step scanResult = Inl e \<Longrightarrow> grid_stage generate scanResult params = Inl e"
  by (simp add: grid_stage_def)

lemma process_grid_reuse_requested:
  "process_grid generate
      (params\<lparr>reuseGridIfPossible := True, existingGrid := Some grid,
              existingNormInfo := Some normInfo\<rparr>) = Inr (Reused, grid, normInfo)"
  by (simp add: process_grid_def)

lemma process_grid_generates:
  assumes "\<not> reuseGridIfPossible params \<or> existingGrid params = None
             \<or> existingNormInfo params = None"
  shows "process_grid generate params =
     (case generate (mapFilePath params) (desiredGridWidth params)
             (desiredGridHeight params) (obstacleCosts params) of
        Inl e \<Rightarrow> Inl e
      | Inr (grid, normInfo) \<Rightarrow> Inr (Generated, grid, normInfo))"
proof (cases "reuseGridIfPossible params")
  case False
  then show ?thesis
    by (simp add: process_grid_def)
next
  case True
  with assms show ?thesis
    by (cases "existingGrid params") (auto simp: process_grid_def split: option.splits)
qed

lemma process_grid_after_check:
  "process_grid generate (check_grid_reuse m_impl current)
     = (if lastProcessedGrid m_impl \<noteq> None \<and> lastNormalizationInfo m_impl \<noteq> None
           \<and> currentMapFilePath m_impl = mapFilePath current
           \<and> lastGridWidth m_impl = desiredGridWidth current
           \<and> lastGridHeight m_impl = desiredGridHeight current
        then Inr (Reused, the (lastProcessedGrid m_impl), the (lastNormalizationInfo m_impl))
        else (case generate (mapFilePath current) (desiredGridWidth current)
                     (desiredGridHeight current) (obstacleCosts current) of
                Inl e \<Rightarrow> Inl e
              | Inr (grid, normInfo) \<Rightarrow> Inr (Generated, grid, normInfo)))"
proof -
  define q where "q = check_grid_reuse m_impl current"
  show ?thesis
  proof (cases "lastProcessedGrid m_impl \<noteq> None \<and> lastNormalizationInfo m_impl \<noteq> None
      \<and> currentMapFilePath m_impl = mapFilePath current
      \<and> lastGridWidth m_impl = desiredGridWidth current
      \<and> lastGridHeight m_impl = desiredGridHeight current")
    case True
    then obtain grid normInfo where g: "lastProcessedGrid m_impl = Some grid"
      and n: "lastNormalizationInfo m_impl = Some normInfo"
      by auto
    have "q = current\<lparr>reuseGridIfPossible := True, existingGrid := Some grid,
        existingNormInfo := Some normInfo\<rparr>"
      using True g n by (simp add: q_def check_grid_reuse_def)
    then show ?thesis
      using True g n unfolding q_def [symmetric]
      by (simp add: process_grid_reuse_requested)
  next
    case False
    have same: "mapFilePath q = mapFilePath current" "desiredGridWidth q = desiredGridWidth current"
      "desiredGridHeight q = desiredGridHeight current" "obstacleCosts q = obstacleCosts current"
      by (simp_all add: q_def check_grid_reuse_def)
    have "\<not> reuseGridIfPossible q \<or> existingGrid q = None \<or> existingNormInfo q = None"
      using False by (auto simp: q_def check_grid_reuse_def)
    from process_grid_generates [OF this, of generate] False show ?thesis
      unfolding q_def [symmetric] same by auto
  qed
qed

text \<open>
  C3. After the scan of the map file, which comes first and may throw, the grid kept in
  the window is reused exactly when the window holds a grid and a normalization record
  and its stored map file path, grid width and grid height equal those of the new
  input; the grid handed on is then the stored one. In every other case the grid is
  generated anew from the new input. The obstacle costs are not compared. What the
  window stores after a run is the path, width and height of that run, and a grid and
  a normalization record exactly when the first step of that run went through without
  an exception.
\<close>

theorem grid_reuse_condition:
  "grid_stage generate scanResult (check_grid_reuse m_impl current)
     = (case scan_step scanResult of
          Inl e \<Rightarrow> Inl e
        | Inr scanned \<Rightarrow>
            if lastProcessedGrid m_impl \<noteq> None \<and> lastNormalizationInfo m_impl \<noteq> None
               \<and> currentMapFilePath m_impl = mapFilePath current
               \<and> lastGridWidth m_impl = desiredGridWidth current
               \<and> lastGridHeight m_impl = desiredGridHeight current
            then Inr (Reused, the (lastProcessedGrid m_impl),
                      the (lastNormalizationInfo m_impl))
            else (case generate (mapFilePath current) (desiredGridWidth current)
                         (desiredGridHeight current) (obstacleCosts current) of
                    Inl e \<Rightarrow> Inl e
                  | Inr (grid, normInfo) \<Rightarrow> Inr (Generated, grid, normInfo)))
   \<and> currentMapFilePath
        (onCalculationFinished window (grid_step generate previousScan previous))
       = mapFilePath previous
   \<and> lastGridWidth (onCalculationFinished window (grid_step generate previousScan previous))
       = desiredGridWidth previous
   \<and> lastGridHeight (onCalculationFinished window (grid_step generate previousScan previous))
       = desiredGridHeight previous
   \<and> (lastProcessedGrid
         (onCalculationFinished window (grid_step generate previousScan previous)) \<noteq> None
       \<longleftrightarrow> (\<exists>r. grid_stage generate previousScan previous = Inr r))
   \<and> (lastNormalizationInfo
         (onCalculationFinished window (grid_step generate previousScan previous)) \<noteq> None
       \<longleftrightarrow> (\<exists>r. grid_stage generate previousScan previous = Inr r))"
proof (intro conjI)
  have "grid_stage generate scanResult (check_grid_reuse m_impl current)
     = (case scan_step scanResult of
          Inl e \<Rightarrow> Inl e
        | Inr scanned \<Rightarrow> process_grid generate (check_grid_reuse m_impl current))"
    by (simp add: grid_stage_def)
  then show "grid_stage generate scanResult (check_grid_reuse m_impl current)
     = (case scan_step scanResult of
          Inl e \<Rightarrow> Inl e
        | Inr scanned \<Rightarrow>
            if lastProcessedGrid m_impl \<noteq> None \<and> lastNormalizationInfo m_impl \<noteq> None
               \<and> currentMapFilePath m_impl = mapFilePath current
               \<and> lastGridWidth m_impl = desiredGridWidth current
               \<and> lastGridHeight m_impl = desiredGridHeight current
            then Inr (Reused, the (lastProcessedGrid m_impl),
                      the (lastNormalizationInfo m_impl))
            else (case generate (mapFilePath current) (desiredGridWidth current)
                         (desiredGridHeight current) (obstacleCosts current) of
                    Inl e \<Rightarrow> Inl e
                  | Inr (grid, normInfo) \<Rightarrow> Inr (Generated, grid, normInfo)))"
    by (simp only: process_grid_after_check)
  let ?m = "onCalculationFinished window (grid_step generate previousScan previous)"
  show "currentMapFilePath ?m = mapFilePath previous"
    by (simp add: onCalculationFinished_def grid_step_echo)
  show "lastGridWidth ?m = desiredGridWidth previous"
    by (simp add: onCalculationFinished_def grid_step_echo)
  show "lastGridHeight ?m = desiredGridHeight previous"
    by (simp add: onCalculationFinished_def grid_step_echo)
  have "lastProcessedGrid ?m = processedGrid (grid_step generate previousScan previous)"
    by (simp add: onCalculationFinished_def)
  then show "lastProcessedGrid ?m \<noteq> None
      \<longleftrightarrow> (\<exists>r. grid_stage generate previousScan previous = Inr r)"
    by (simp only: grid_step_grid)
  have "lastNormalizationInfo ?m
      = normalizationInfo (grid_step generate previousScan previous)"
    by (simp add: onCalculationFinished_def)
  then show "lastNormalizationInfo ?m \<noteq> None
      \<longleftrightarrow> (\<exists>r. grid_stage generate previousScan previous = Inr r)"
    by (simp only: grid_step_grid)
qed

lemmas reuse_example_defs =
  grid_stage_def scan_step_def process_grid_def check_grid_reuse_def onCalculationFinished_def
  grid_step_def one_cell_processor_def first_input_def second_input_def fresh_window_def
  georeferenced_scan_def boundless_scan_def

text \<open>
  Two runs on the same map and grid size whose obstacle costs differ: the second run
  reuses the grid of the first, with the cell cost \<open>2\<close>, where its own obstacle costs
  make the cell impassable.
\<close>

theorem grid_reused_despite_changed_obstacle_costs:
  "obstacleCosts second_input ''201'' \<noteq> obstacleCosts first_input ''201''
   \<and> one_cell_processor (mapFilePath second_input) (desiredGridWidth second_input)
        (desiredGridHeight second_input) (obstacleCosts second_input)
      = Inr (\<lparr>grid_width = 1, grid_height = 1, grid_cells = [IMPASSABLE]\<rparr>,
             \<lparr>norm_min_x = 0, norm_min_y = 0, resolution_x = 1, resolution_y = 1,
              norm_valid = True\<rparr>)
   \<and> grid_stage one_cell_processor georeferenced_scan
        (check_grid_reuse
           (onCalculationFinished fresh_window
              (grid_step one_cell_processor georeferenced_scan
                 (check_grid_reuse fresh_window first_input)))
           second_input)
      = Inr (Reused, \<lparr>grid_width = 1, grid_height = 1, grid_cells = [Multiplier 2]\<rparr>,
             \<lparr>norm_min_x = 0, norm_min_y = 0, resolution_x = 1, resolution_y = 1,
              norm_valid = True\<rparr>)"
  by (simp add: reuse_example_defs)

text \<open>
  The same two runs; a second run on a wider grid, which generates; a first run
  whose scan throws, which leaves no grid, so that the second run generates; and a
  second run whose own scan throws.
\<close>

theorem grid_reuse_condition_witness:
  "grid_stage one_cell_processor georeferenced_scan
      (check_grid_reuse
         (onCalculationFinished fresh_window
            (grid_step one_cell_processor georeferenced_scan first_input))
         second_input)
     = Inr (Reused, \<lparr>grid_width = 1, grid_height = 1, grid_cells = [Multiplier 2]\<rparr>,
            \<lparr>norm_min_x = 0, norm_min_y = 0, resolution_x = 1, resolution_y = 1,
             norm_valid = True\<rparr>)
   \<and> grid_stage one_cell_processor georeferenced_scan
      (check_grid_reuse
         (onCalculationFinished fresh_window
            (grid_step one_cell_processor georeferenced_scan first_input))
         (second_input\<lparr>desiredGridWidth := 2\<rparr>))
     = Inr (Generated, \<lparr>grid_width = 1, grid_height = 1, grid_cells = [IMPASSABLE]\<rparr>,
            \<lparr>norm_min_x = 0, norm_min_y = 0, resolution_x = 1, resolution_y = 1,
             norm_valid = True\<rparr>)
   \<and> lastProcessedGrid
        (onCalculationFinished fresh_window
           (grid_step one_cell_processor boundless_scan first_input)) = None
   \<and> grid_stage one_cell_processor georeferenced_scan
      (check_grid_reuse
         (onCalculationFinished fresh_window
            (grid_step one_cell_processor boundless_scan first_input))
         second_input)
     = Inr (Generated, \<lparr>grid_width = 1, grid_height = 1, grid_cells = [IMPASSABLE]\<rparr>,
            \<lparr>norm_min_x = 0, norm_min_y = 0, resolution_x = 1, resolution_y = 1,
             norm_valid = True\<rparr>)
   \<and> grid_stage one_cell_processor boundless_scan
      (check_grid_reuse
         (onCalculationFinished fresh_window
            (grid_step one_cell_processor georeferenced_scan first_input))
         second_input)
     = Inl (Runtime_error ''Could not determine coordinate bounds from map file.'')"
  using
    grid_reuse_condition [of one_cell_processor georeferenced_scan
      "onCalculationFinished fresh_window
         (grid_step one_cell_processor georeferenced_scan first_input)" second_input
      fresh_window boundless_scan first_input]
    grid_reuse_condition [of one_cell_processor georeferenced_scan
      "onCalculationFinished fresh_window
         (grid_step one_cell_processor georeferenced_scan first_input)"
      "second_input\<lparr>desiredGridWidth := 2\<rparr>"]
    grid_reuse_condition [of one_cell_processor georeferenced_scan
      "onCalculationFinished fresh_window
         (grid_step one_cell_processor boundless_scan first_input)" second_input]
    grid_reuse_condition [of one_cell_processor boundless_scan
      "onCalculationFinished fresh_window
         (grid_step one_cell_processor georeferenced_scan first_input)" second_input]
  by (simp add: reuse_example_defs)


section \<open>The elevation field\<close>

lemma uint_word64_in_range:
  "0 \<le> k \<Longrightarrow> k < 2 ^ 64 \<Longrightarrow> uint (word_of_int k :: 64 word) = k"
  by (simp add: uint_word_of_int_eq take_bit_int_eq_self)

lemma unat_scast_nonneg:
  fixes w :: int32
  assumes "0 \<le> sint w"
  shows "unat (scast w :: 64 word) = nat (sint w)" and "nat (sint w) < 2 ^ 31"
proof -
  have lt: "sint w < 2 ^ 31"
    using sint_lt [of w] by simp
  then have lt64: "sint w < 2 ^ 64"
    by (rule less_trans) simp
  have "uint (scast w :: 64 word) = sint w"
    using uint_word64_in_range [OF assms lt64] by (simp only: scast_eq)
  then show "unat (scast w :: 64 word) = nat (sint w)"
    by (simp add: unat_eq_nat_uint)
  show "nat (sint w) < 2 ^ 31"
    using lt assms by (simp add: nat_less_iff)
qed

lemma size_t_product_nonneg:
  assumes "0 \<le> sint w" and "0 \<le> sint h"
  shows "size_t_product w h = nat (sint w) * nat (sint h)"
proof -
  have "nat (sint w) * nat (sint h) < 2 ^ 31 * 2 ^ 31"
    using unat_scast_nonneg(2) [OF assms(1)] unat_scast_nonneg(2) [OF assms(2)]
    by (rule mult_strict_mono) simp_all
  also have "\<dots> < (2 :: nat) ^ 64"
    by simp
  finally show ?thesis
    using assms by (simp add: size_t_product_def unat_word_ariths unat_scast_nonneg(1))
qed

lemma dummy_elevation_uniform:
  assumes "0 \<le> sint (desiredGridWidth params)" and "0 \<le> sint (desiredGridHeight params)"
    and "1 / 10 ^ 6 < log_cell"
  shows "uniform_field (dummy_elevation params log_cell)
           (desiredGridWidth params) (desiredGridHeight params)"
  using assms by (simp add: uniform_field_def dummy_elevation_def size_t_product_nonneg)

lemma failed_anchor_gives_dummy:
  assumes "refLatLon scanResult \<noteq> None" and "\<not> pp_success anchorProj"
  obtains log_cell where "1 / 10 ^ 6 < log_cell"
    and "prepare_elevation scanResult canFetchElevation mapScaleFromXml default_elevation
           hasData fetched anchorProj params finalNormInfo
         = Inr (dummy_elevation params log_cell, True)"
proof -
  define l0 where "l0 = (norm_min_x finalNormInfo
      + to_float (desiredGridWidth params) * resolution_x finalNormInfo
      - norm_min_x finalNormInfo) / to_float (desiredGridWidth params)
    * (mapScaleFromXml / 1000000)"
  define l where "l = (if l0 \<le> 1 / 10 ^ 6 then 1 else l0)"
  have "1 / 10 ^ 6 < l"
    by (simp add: l_def)
  moreover have "prepare_elevation scanResult canFetchElevation mapScaleFromXml
      default_elevation hasData fetched anchorProj params finalNormInfo
    = Inr (dummy_elevation params l, True)"
    using assms by (auto simp add: prepare_elevation_def Let_def l_def l0_def)
  ultimately show thesis
    using that by blast
qed

lemmas elevation_example_defs =
  scan_step_def prepare_elevation_def dummy_elevation_def size_t_product_def uniform_field_def
  georeferenced_scan_def failed_fetch_def values_present_def anchor_converted_def
  anchor_failed_def unit_normalization_def to_float_def two_by_two_def first_input_def

text \<open>
  With the same failed fetch and a failed conversion of the anchor, the dummy block is
  reached and builds the uniform field of 2 by 2 cells.
\<close>

lemma failed_anchor_example:
  "prepare_elevation georeferenced_scan True 10000 failed_fetch values_present failed_fetch
        anchor_failed two_by_two unit_normalization
      = Inr (dummy_elevation two_by_two 1, True)
   \<and> uniform_field (dummy_elevation two_by_two 1)
         (desiredGridWidth two_by_two) (desiredGridHeight two_by_two)
   \<and> elevation_values_final (dummy_elevation two_by_two 1) = [100, 100, 100, 100]"
proof -
  have "uniform_field (dummy_elevation two_by_two 1)
         (desiredGridWidth two_by_two) (desiredGridHeight two_by_two)"
    by (rule dummy_elevation_uniform) (simp_all add: two_by_two_def first_input_def)
  moreover have "size_t_product 2 2 = 4"
    by (simp add: size_t_product_def)
  then have "elevation_values_final (dummy_elevation two_by_two 1) = [100, 100, 100, 100]"
    by (simp add: dummy_elevation_def two_by_two_def first_input_def numeral_eq_Suc)
  moreover have "prepare_elevation georeferenced_scan True 10000 failed_fetch values_present
        failed_fetch anchor_failed two_by_two unit_normalization
      = Inr (dummy_elevation two_by_two 1, True)"
    by (simp add: prepare_elevation_def georeferenced_scan_def failed_fetch_def
        values_present_def anchor_failed_def unit_normalization_def to_float_def
        two_by_two_def first_input_def)
  ultimately show ?thesis
    by simp
qed

text \<open>
  C7. When the elevation fetch fails and the conversion of the anchor succeeds, real
  elevation data is not available, yet the pathfinders do not receive the uniform
  field of value \<open>100\<close>: \<open>useRealElevation\<close> is still true, so the empty result of the
  failed fetch is handed on, with width and height \<open>0\<close>, and \<open>usedDummyElevation\<close> is
  false. The requested grid is 2 by 2.
\<close>

theorem failed_fetch_not_replaced_by_dummy:
  "scan_step georeferenced_scan = Inr (True, 10000)
   \<and> \<not> ed_success failed_fetch
   \<and> prepare_elevation georeferenced_scan True 10000 failed_fetch values_present failed_fetch
        anchor_converted two_by_two unit_normalization
      = Inr (\<lparr>elevation_values_final = [], elevation_width_final = 0,
              elevation_height_final = 0, log_cell_resolution_meters = 1,
              elevation_resolution_final = 0, origin_offset_x = 0, origin_offset_y = 0\<rparr>,
             False)
   \<and> \<not> uniform_field
          \<lparr>elevation_values_final = [], elevation_width_final = 0,
           elevation_height_final = 0, log_cell_resolution_meters = 1,
           elevation_resolution_final = 0, origin_offset_x = 0, origin_offset_y = 0\<rparr>
          (desiredGridWidth two_by_two) (desiredGridHeight two_by_two)"
  by (simp add: elevation_example_defs)

section \<open>The obstacle cost parser\<close>

subsection \<open>Trimming\<close>

lemma first_not_of_from_eq:
  "first_not_of_from s chars i =
     (if \<forall>c \<in> set s. c \<in> set chars then None
      else Some (i + length (takeWhile (\<lambda>c. c \<in> set chars) s)))"
  by (induction s arbitrary: i) auto

lemma erase_first_not_of:
  "erase s 0 (find_first_not_of s chars) = dropWhile (\<lambda>c. c \<in> set chars) s"
proof (cases "\<forall>c \<in> set s. c \<in> set chars")
  case True
  then have "dropWhile (\<lambda>c. c \<in> set chars) s = []"
    by simp
  moreover have "erase s 0 (find_first_not_of s chars) = []"
    using True by (simp add: erase_def find_first_not_of_def first_not_of_from_eq)
  ultimately show ?thesis
    by (simp only:)
next
  case False
  then show ?thesis
    by (auto simp add: erase_def find_first_not_of_def first_not_of_from_eq dropWhile_eq_drop)
qed

lemma rstrip_Cons:
  "rev (dropWhile P (rev (c # cs))) =
     (if (\<forall>x \<in> set cs. P x) \<and> P c then [] else c # rev (dropWhile P (rev cs)))"
  by (auto simp: dropWhile_append)

lemma rstrip_eq_Nil: "rev (dropWhile P (rev s)) = [] \<longleftrightarrow> (\<forall>x \<in> set s. P x)"
  by simp

lemma last_not_of_from_eq:
  "last_not_of_from s chars i =
     (if \<forall>c \<in> set s. c \<in> set chars then None
      else Some (i + length (rev (dropWhile (\<lambda>c. c \<in> set chars) (rev s))) - 1))"
proof (induction s arbitrary: i)
  case Nil
  show ?case by simp
next
  case (Cons c cs)
  show ?case
  proof (cases "\<forall>x \<in> set cs. x \<in> set chars")
    case True
    then show ?thesis
      by (simp add: Cons.IH rstrip_Cons del: rev.simps)
  next
    case False
    then have "rev (dropWhile (\<lambda>c. c \<in> set chars) (rev cs)) \<noteq> []"
      by (simp add: rstrip_eq_Nil del: rev_is_Nil_conv)
    then have "0 < length (rev (dropWhile (\<lambda>c. c \<in> set chars) (rev cs)))"
      by (simp del: length_rev rev_is_Nil_conv)
    with False show ?thesis
      by (auto simp add: Cons.IH rstrip_Cons simp del: rev.simps length_rev)
  qed
qed

lemma take_length_rstrip:
  "take (length (rev (dropWhile P (rev s)))) s = rev (dropWhile P (rev s))"
proof -
  have "rev s = takeWhile P (rev s) @ dropWhile P (rev s)"
    by simp
  then have "s = rev (dropWhile P (rev s)) @ rev (takeWhile P (rev s))"
    by (metis rev_append rev_rev_ident)
  then show ?thesis
    by (metis append_eq_conv_conj)
qed

lemma erase_last_not_of:
  "erase s (pos_plus_one (find_last_not_of s chars)) None
     = rev (dropWhile (\<lambda>c. c \<in> set chars) (rev s))"
proof (cases "\<forall>c \<in> set s. c \<in> set chars")
  case True
  then show ?thesis
    by (simp add: erase_def pos_plus_one_def find_last_not_of_def last_not_of_from_eq)
next
  case False
  then have "rev (dropWhile (\<lambda>c. c \<in> set chars) (rev s)) \<noteq> []"
    by (simp add: rstrip_eq_Nil del: rev_is_Nil_conv)
  then have "0 < length (rev (dropWhile (\<lambda>c. c \<in> set chars) (rev s)))"
    by (simp del: length_rev rev_is_Nil_conv)
  then have "pos_plus_one (find_last_not_of s chars)
      = length (rev (dropWhile (\<lambda>c. c \<in> set chars) (rev s)))"
    using False
    by (simp add: pos_plus_one_def find_last_not_of_def last_not_of_from_eq del: length_rev)
  then show ?thesis
    by (simp only: erase_def option.case take_length_rstrip)
qed

lemma trim_eq_strip: "trim chars s = strip chars s"
  by (simp add: trim_def strip_def erase_first_not_of erase_last_not_of Let_def)

subsection \<open>The colon\<close>

lemma find_from_eq:
  "find_from s ch i =
     (if ch \<in> set s then Some (i + length (takeWhile (\<lambda>c. c \<noteq> ch) s)) else None)"
  by (induction s arbitrary: i) auto

lemma find_char_None: "find_char s ch = None \<longleftrightarrow> ch \<notin> set s"
  by (simp add: find_char_def find_from_eq)

lemma find_char_Some:
  assumes "find_char s ch = Some k"
  shows "substr s 0 (Some k) = takeWhile (\<lambda>c. c \<noteq> ch) s"
    and "substr s (k + 1) None = drop 1 (dropWhile (\<lambda>c. c \<noteq> ch) s)"
proof -
  from assms have k: "k = length (takeWhile (\<lambda>c. c \<noteq> ch) s)"
    by (simp add: find_char_def find_from_eq split: if_splits)
  show "substr s 0 (Some k) = takeWhile (\<lambda>c. c \<noteq> ch) s"
    by (simp add: substr_def k takeWhile_eq_take [symmetric])
  show "substr s (k + 1) None = drop 1 (dropWhile (\<lambda>c. c \<noteq> ch) s)"
    by (simp add: substr_def k dropWhile_eq_drop)
qed

lemma in_set_dropWhile: "\<not> P c \<Longrightarrow> c \<in> set (dropWhile P s) \<longleftrightarrow> c \<in> set s"
  by (induction s) auto

lemma in_set_strip: "c \<notin> set chars \<Longrightarrow> c \<in> set (strip chars s) \<longleftrightarrow> c \<in> set s"
  by (simp add: strip_def in_set_dropWhile)

lemma colon_not_whitespace: "CHR '':'' \<notin> set line_whitespace" "CHR '':'' \<notin> set blanks"
  by (simp_all add: line_whitespace_def blanks_def)

lemma ignored_strip:
  "ignored l \<longleftrightarrow> strip line_whitespace l = [] \<or> hd (strip line_whitespace l) = CHR ''#''"
proof (cases "dropWhile (\<lambda>c. c \<in> set line_whitespace) l")
  case Nil
  show ?thesis
    unfolding ignored_def strip_def Nil by simp
next
  case (Cons c cs)
  then have "c \<notin> set line_whitespace"
    using hd_dropWhile [of "\<lambda>c. c \<in> set line_whitespace" l] by simp
  then show ?thesis
    using Cons by (simp add: ignored_def strip_def rstrip_Cons del: rev.simps)
qed

subsection \<open>One line\<close>

lemma parse_lines_Cons:
  "parse_lines stof (l # ls) configMap =
     (if ignored l then parse_lines stof ls configMap
      else if malformed stof l then (False, configMap)
      else parse_lines stof ls (configMap(code_of l \<mapsto> float_of stof (value_of l))))"
proof (cases "ignored l")
  case True
  then show ?thesis
    by (simp add: trim_eq_strip ignored_strip)
next
  case False
  then have ni: "\<not> (strip line_whitespace l = [] \<or> hd (strip line_whitespace l) = CHR ''#'')"
    by (simp add: ignored_strip)
  show ?thesis
  proof (cases "find_char (strip line_whitespace l) CHR '':''")
    case None
    then have "CHR '':'' \<notin> set l"
      by (simp add: find_char_None in_set_strip colon_not_whitespace)
    then show ?thesis
      using False ni None by (simp add: trim_eq_strip malformed_def)
  next
    case (Some k)
    then have colon: "CHR '':'' \<in> set l"
      using find_char_None [of "strip line_whitespace l" "CHR '':''"]
      by (simp add: in_set_strip colon_not_whitespace)
    have c: "strip blanks (substr (strip line_whitespace l) 0 (Some k)) = code_of l"
      and v: "strip blanks (substr (strip line_whitespace l) (Suc k) None) = value_of l"
      using find_char_Some [OF Some] by (simp_all add: code_of_def value_of_def)
    show ?thesis
      using False ni Some colon
      by (simp add: trim_eq_strip c v malformed_def is_float_def float_of_def Let_def
          split: stof_result.splits)
  qed
qed


subsection \<open>All lines\<close>

lemma parse_lines_ok:
  "fst (parse_lines stof ls configMap) \<longleftrightarrow> (\<forall>l \<in> set ls. ignored l \<or> \<not> malformed stof l)"
proof (induction ls arbitrary: configMap)
  case Nil
  show ?case by simp
next
  case (Cons l ls)
  show ?case
    unfolding parse_lines_Cons by (simp add: Cons.IH)
qed

lemma parse_lines_entries:
  "fst (parse_lines stof ls configMap) \<Longrightarrow>
     snd (parse_lines stof ls configMap) = configMap ++ map_of (rev (entries stof ls))"
proof (induction ls arbitrary: configMap)
  case Nil
  show ?case by (simp add: entries_def)
next
  case (Cons l ls)
  show ?case
  proof (cases "ignored l")
    case True
    with Cons show ?thesis
      unfolding parse_lines_Cons by (simp add: entries_def)
  next
    case False
    with Cons.prems have ok: "\<not> malformed stof l"
      and rest: "fst (parse_lines stof ls (configMap(code_of l \<mapsto> float_of stof (value_of l))))"
      unfolding parse_lines_Cons by (simp_all split: if_splits)
    have ent: "entries stof (l # ls) = (code_of l, float_of stof (value_of l)) # entries stof ls"
      using False by (simp add: entries_def)
    have "snd (parse_lines stof (l # ls) configMap)
        = snd (parse_lines stof ls (configMap(code_of l \<mapsto> float_of stof (value_of l))))"
      unfolding parse_lines_Cons using False ok by simp
    also have "\<dots> = configMap(code_of l \<mapsto> float_of stof (value_of l))
        ++ map_of (rev (entries stof ls))"
      by (rule Cons.IH [OF rest])
    also have "\<dots> = configMap ++ map_of (rev (entries stof (l # ls)))"
      unfolding ent by (simp add: map_add_assoc [symmetric])
    finally show ?thesis .
  qed
qed

subsection \<open>Whitespace around the colon\<close>

lemma strip_padded:
  assumes "set p \<subseteq> set chars" and "set q \<subseteq> set chars"
    and "t \<noteq> []" and "hd t \<notin> set chars" and "last t \<notin> set chars"
  shows "strip chars (p @ t @ q) = t"
proof -
  let ?P = "\<lambda>c. c \<in> set chars"
  have front: "dropWhile ?P (p @ t @ q) = t @ q"
    using assms(1,3,4) by (cases t) (auto simp: dropWhile_append)
  have "dropWhile ?P (rev (t @ q)) = dropWhile ?P (rev t)"
    using assms(2) by (auto simp: dropWhile_append)
  also have "\<dots> = rev t"
    using assms(3,5) by (cases "rev t") (auto simp: last_rev [symmetric] simp del: last_rev)
  finally show ?thesis
    by (simp add: strip_def front del: rev_append)
qed

lemma padded_line:
  assumes p: "set p1 \<subseteq> set line_whitespace" "set p2 \<subseteq> set blanks"
      "set p3 \<subseteq> set blanks" "set p4 \<subseteq> set line_whitespace"
    and c: "token c" "c \<noteq> []" "CHR '':'' \<notin> set c"
    and v: "token v" "v \<noteq> []"
  shows "code_of (p1 @ c @ p2 @ CHR '':'' # p3 @ v @ p4) = c"
    and "value_of (p1 @ c @ p2 @ CHR '':'' # p3 @ v @ p4) = v"
    and "ignored (p1 @ c @ p2 @ CHR '':'' # p3 @ v @ p4) \<longleftrightarrow> hd c = CHR ''#''"
proof -
  let ?T = "c @ p2 @ CHR '':'' # p3 @ v"
  have sub: "set blanks \<subseteq> set line_whitespace"
    by (auto simp: blanks_def line_whitespace_def)
  have T: "strip line_whitespace (p1 @ ?T @ p4) = ?T"
    using p(1,4) c(1,2) v by (intro strip_padded) (auto simp: token_def)
  have p2: "\<forall>x \<in> set p2. x \<noteq> CHR '':''"
    using p(2) colon_not_whitespace(2) by auto
  have c3: "\<forall>x \<in> set c. x \<noteq> CHR '':''"
    using c(3) by auto
  have tw: "takeWhile (\<lambda>x. x \<noteq> CHR '':'') ?T = c @ p2"
    using c3 p2 by simp
  have dw: "drop 1 (dropWhile (\<lambda>x. x \<noteq> CHR '':'') ?T) = p3 @ v"
    using c3 p2 by simp
  have cb: "strip blanks ([] @ c @ p2) = c"
    using p(2) c(1,2) sub by (intro strip_padded) (auto simp: token_def)
  have vb: "strip blanks (p3 @ v @ []) = v"
    using p(3) v sub by (intro strip_padded) (auto simp: token_def)
  have L: "p1 @ c @ p2 @ CHR '':'' # p3 @ v @ p4 = p1 @ ?T @ p4"
    by simp
  show "code_of (p1 @ c @ p2 @ CHR '':'' # p3 @ v @ p4) = c"
    unfolding code_of_def L T tw using cb by simp
  show "value_of (p1 @ c @ p2 @ CHR '':'' # p3 @ v @ p4) = v"
    unfolding value_of_def L T dw using vb by simp
  show "ignored (p1 @ c @ p2 @ CHR '':'' # p3 @ v @ p4) \<longleftrightarrow> hd c = CHR ''#''"
    unfolding ignored_strip L T using c(2) by simp
qed

lemma padded_line_parse:
  assumes p: "set p1 \<subseteq> set line_whitespace" "set p2 \<subseteq> set blanks"
      "set p3 \<subseteq> set blanks" "set p4 \<subseteq> set line_whitespace"
    and c: "token c" "c \<noteq> []" "CHR '':'' \<notin> set c"
    and v: "token v" "v \<noteq> []"
  shows "parse_lines stof ((p1 @ c @ p2 @ CHR '':'' # p3 @ v @ p4) # ls) configMap
       = parse_lines stof ((c @ CHR '':'' # v) # ls) configMap"
proof -
  have e: "set [] \<subseteq> set blanks" "set [] \<subseteq> set line_whitespace"
    by simp_all
  have plain: "c @ CHR '':'' # v = [] @ c @ [] @ CHR '':'' # [] @ v @ []"
    by simp
  have a: "code_of (c @ CHR '':'' # v) = c" "value_of (c @ CHR '':'' # v) = v"
    "ignored (c @ CHR '':'' # v) \<longleftrightarrow> hd c = CHR ''#''"
    unfolding plain using padded_line [OF e(2) e(1) e(1) e(2) c v] by blast+
  show ?thesis
    unfolding parse_lines_Cons
    by (simp add: padded_line [OF p c v] a malformed_def)
qed


text \<open>
  C8. The parser returns true exactly when every line of the text is either ignored
  (blank, or with \<open>#\<close> as its first character that is not whitespace) or well-formed (a
  colon, a symbol code that is not empty, a value that \<open>stof\<close> accepts); so it fails if
  and only if some line that is not ignored lacks a colon, has an empty code or has a
  value that is not a float. When it returns true, the map holds one entry per line
  that is not ignored, code to value, a later line overriding an earlier one with the
  same code. Blanks and tabs around the colon, and whitespace at the two ends of the
  line, do not matter: a padded line \<open>CODE : VALUE\<close> is parsed as \<open>CODE:VALUE\<close> is.
\<close>

theorem parseObstacleCosts_format:
  "(fst (parseObstacleCosts stof text) \<longleftrightarrow>
      (\<forall>l \<in> set (getlines text). ignored l \<or> \<not> malformed stof l))
   \<and> (fst (parseObstacleCosts stof text) \<longrightarrow>
        snd (parseObstacleCosts stof text) = map_of (rev (entries stof (getlines text))))
   \<and> (set left \<subseteq> set line_whitespace \<and> set before \<subseteq> set blanks
        \<and> set after \<subseteq> set blanks \<and> set right \<subseteq> set line_whitespace
        \<and> token code \<and> code \<noteq> [] \<and> CHR '':'' \<notin> set code \<and> token val \<and> val \<noteq> [] \<longrightarrow>
        parse_lines stof ((left @ code @ before @ CHR '':'' # after @ val @ right) # ls) configMap
          = parse_lines stof ((code @ CHR '':'' # val) # ls) configMap)"
proof (intro conjI impI)
  show "fst (parseObstacleCosts stof text) \<longleftrightarrow>
      (\<forall>l \<in> set (getlines text). ignored l \<or> \<not> malformed stof l)"
    by (simp only: parseObstacleCosts_def parse_lines_ok)
  show "snd (parseObstacleCosts stof text) = map_of (rev (entries stof (getlines text)))"
    if "fst (parseObstacleCosts stof text)"
    using that parse_lines_entries [of stof "getlines text" Map.empty]
    by (simp add: parseObstacleCosts_def)
  show "parse_lines stof ((left @ code @ before @ CHR '':'' # after @ val @ right) # ls) configMap
      = parse_lines stof ((code @ CHR '':'' # val) # ls) configMap"
    if "set left \<subseteq> set line_whitespace \<and> set before \<subseteq> set blanks
        \<and> set after \<subseteq> set blanks \<and> set right \<subseteq> set line_whitespace
        \<and> token code \<and> code \<noteq> [] \<and> CHR '':'' \<notin> set code \<and> token val \<and> val \<noteq> []"
    using that by (intro padded_line_parse) simp_all
qed

lemmas parser_example_defs =
  parseObstacleCosts_def getlines_def trim_def erase_def substr_def pos_plus_one_def
  find_first_not_of_def find_last_not_of_def find_char_def line_whitespace_def blanks_def
  example_stof_def example_text_def

theorem parseObstacleCosts_format_witness:
  "parseObstacleCosts example_stof example_text = (True, [''201'' \<mapsto> - 1, ''302'' \<mapsto> 2.5])
   \<and> getlines example_text
       = [''# costs'', [], ''  201 :'' @ [CHR 0x09] @ ''-1.0 '' @ [CHR 0x0D], ''302:2.5'']
   \<and> ignored ''# costs'' \<and> ignored []
   \<and> \<not> malformed example_stof (''  201 :'' @ [CHR 0x09] @ ''-1.0 '' @ [CHR 0x0D])
   \<and> \<not> malformed example_stof ''302:2.5''
   \<and> map_of (rev (entries example_stof (getlines example_text)))
       = [''201'' \<mapsto> - 1, ''302'' \<mapsto> 2.5]
   \<and> parse_lines example_stof [''  201 :'' @ [CHR 0x09] @ ''-1.0 '' @ [CHR 0x0D]] Map.empty
       = parse_lines example_stof [''201:-1.0''] Map.empty
   \<and> parseObstacleCosts example_stof ''201 -1.0'' = (False, Map.empty)
   \<and> (\<exists>l \<in> set (getlines ''201 -1.0''). \<not> ignored l \<and> malformed example_stof l)"
proof -
  have r: "parseObstacleCosts example_stof example_text
      = (True, [''201'' \<mapsto> - 1, ''302'' \<mapsto> 2.5])"
    by (simp add: parser_example_defs)
  have b: "parseObstacleCosts example_stof ''201 -1.0'' = (False, Map.empty)"
    by (simp add: parser_example_defs)
  have h: "set ''  '' \<subseteq> set line_whitespace \<and> set '' '' \<subseteq> set blanks
        \<and> set [CHR 0x09] \<subseteq> set blanks \<and> set ('' '' @ [CHR 0x0D]) \<subseteq> set line_whitespace
        \<and> token ''201'' \<and> ''201'' \<noteq> [] \<and> CHR '':'' \<notin> set ''201''
        \<and> token ''-1.0'' \<and> ''-1.0'' \<noteq> []"
    by (simp add: line_whitespace_def blanks_def token_def)
  have g: "getlines example_text
       = [''# costs'', [], ''  201 :'' @ [CHR 0x09] @ ''-1.0 '' @ [CHR 0x0D], ''302:2.5'']"
    by (simp add: getlines_def example_text_def)
  have i: "ignored ''# costs''" "ignored []"
    "\<not> ignored (''  201 :'' @ [CHR 0x09] @ ''-1.0 '' @ [CHR 0x0D])" "\<not> ignored ''302:2.5''"
    by (simp_all add: ignored_def line_whitespace_def)
  show ?thesis
    using r b h g i
      parseObstacleCosts_format [of example_stof example_text]
      parseObstacleCosts_format [of example_stof "''201 -1.0''"]
      parseObstacleCosts_format [where left = "''  ''" and before = "'' ''"
        and after = "[CHR 0x09]" and right = "'' '' @ [CHR 0x0D]" and code = "''201''"
        and val = "''-1.0''" and stof = example_stof and ls = "[]" and configMap = Map.empty]
    by simp
qed

end
